theory Spec2Isabelle
  imports Main "HOL-Library.Word"
begin

unbundle bit_operations_syntax

section \<open>Lowering of local variables to registers: the data model\<close>

text \<open>
  A shallow embedding of \<^verbatim>\<open>src/compiler/nir/nir_lower_locals_to_regs.c\<close>.
  C's \<^verbatim>\<open>unsigned\<close> and \<^verbatim>\<open>uint32_t\<close> are 32-bit words, so every product and sum of the
  pass wraps as it does in C.  A failed \<^verbatim>\<open>assert\<close>, an \<^verbatim>\<open>unreachable\<close> and a read
  through a null pointer are values of \<open>error\<close>; a function that can hit one returns
  \<open>error + 'a\<close>.
\<close>

type_synonym u32 = "32 word"

datatype error =
    Unreachable string
  | Assertion_failed string
  | Null_dereference

subsection \<open>Types of the host's type library\<close>

text \<open>
  Modelled from the spec: the type library (\<^verbatim>\<open>glsl_type\<close> and its queries) is not part of
  this file.  The spec's external interfaces name the queries used here: vector/scalar
  element count, bit width, array length, and the struct-field selection of the chain
  navigation.  A scalar is a vector of one element.
\<close>

datatype glsl_type =
    Glsl_vector nat nat
  | Glsl_array glsl_type u32
  | Glsl_struct "glsl_type list"

fun glsl_get_length :: "glsl_type \<Rightarrow> u32" where
  "glsl_get_length (Glsl_vector n b) = 0"
| "glsl_get_length (Glsl_array t n) = n"
| "glsl_get_length (Glsl_struct fs) = of_nat (length fs)"

fun glsl_type_is_vector_or_scalar :: "glsl_type \<Rightarrow> bool" where
  "glsl_type_is_vector_or_scalar (Glsl_vector n b) = True"
| "glsl_type_is_vector_or_scalar (Glsl_array t n) = False"
| "glsl_type_is_vector_or_scalar (Glsl_struct fs) = False"

fun glsl_get_vector_elements :: "glsl_type \<Rightarrow> nat" where
  "glsl_get_vector_elements (Glsl_vector n b) = n"
| "glsl_get_vector_elements (Glsl_array t n) = 0"
| "glsl_get_vector_elements (Glsl_struct fs) = 0"

fun glsl_get_bit_size :: "glsl_type \<Rightarrow> nat" where
  "glsl_get_bit_size (Glsl_vector n b) = b"
| "glsl_get_bit_size (Glsl_array t n) = 0"
| "glsl_get_bit_size (Glsl_struct fs) = 0"

subsection \<open>Variables, registers, sources and destinations\<close>

datatype nir_variable_mode =
    nir_var_shader_in
  | nir_var_shader_out
  | nir_var_global
  | nir_var_local
  | nir_var_uniform
  | nir_var_shader_storage
  | nir_var_system_value
  | nir_var_shared

datatype nir_constant = Nir_constant "u32 list"

text \<open>
  Modelled from the spec: the declarations of the IR (\<^verbatim>\<open>nir.h\<close>) are not part of this
  file.  The records and datatypes of this section and the next two hold what the pass
  reads and writes of them, under the names the pass uses: the spec's Variable, Register,
  RegisterOperand and DerefChain, and the blocks and instructions of a function.
\<close>

text \<open>
  A variable is an object the chains point to.  The record carries the object's address
  (\<open>var_addr\<close>), so two records are equal exactly when they are the same object, and the
  C comparison of two \<^verbatim>\<open>nir_variable *\<close> is equality of records.
\<close>

record nir_variable =
  var_addr :: "64 word"
  var_type :: glsl_type
  var_mode :: nir_variable_mode
  constant_initializer :: "nir_constant option"

text \<open>
  A register is likewise an object; \<open>reg_index\<close> is the \<^verbatim>\<open>index\<close> that
  \<^verbatim>\<open>nir_local_reg_create\<close> takes from the function's counter, and it tells two register
  objects of one function apart.
\<close>

record nir_register =
  reg_index :: nat
  num_components :: nat
  num_array_elems :: u32
  bit_size :: nat

text \<open>
  An SSA definition is the value an instruction defines.  \<open>Ssa_value\<close> names a definition
  of the surrounding program; the other constructors are the definitions of a
  \<^verbatim>\<open>load_const\<close> and of the ALU instructions the builder emits.  A source is an SSA
  definition or a register operand (register, base offset, optional indirect).
\<close>

datatype nir_ssa_def =
    Ssa_value nat
  | Ssa_load_const u32
  | Ssa_iadd nir_ssa_def nir_ssa_def
  | Ssa_imul nir_ssa_def nir_ssa_def
  | Ssa_imov nir_src
and nir_src =
    Src_ssa (src_ssa: nir_ssa_def)
  | Src_reg (reg_reg: nir_register) (reg_base_offset: u32) (reg_indirect: "nir_src option")

datatype nir_dest =
    Dest_ssa nir_ssa_def
  | Dest_reg nir_register u32 "nir_src option"

text \<open>
  Modelled from the spec: \<^verbatim>\<open>nir_src_as_const_value\<close> is the compile-time-constant
  recognition query on an index operand, yielding its integer value when applicable: the
  operand is a constant when it is the SSA definition of a \<^verbatim>\<open>load_const\<close>.  The pass reads
  the value's first 32-bit component.
\<close>

fun nir_src_as_const_value :: "nir_src \<Rightarrow> u32 option" where
  "nir_src_as_const_value (Src_ssa (Ssa_load_const c)) = Some c"
| "nir_src_as_const_value (Src_ssa (Ssa_value n)) = None"
| "nir_src_as_const_value (Src_ssa (Ssa_iadd x y)) = None"
| "nir_src_as_const_value (Src_ssa (Ssa_imul x y)) = None"
| "nir_src_as_const_value (Src_ssa (Ssa_imov s)) = None"
| "nir_src_as_const_value (Src_reg r b i) = None"

subsection \<open>Dereference chains\<close>

text \<open>
  A \<^verbatim>\<open>nir_deref_instr\<close> is a node of a chain linked through \<^verbatim>\<open>parent\<close>, from the leaf to
  the root variable.  The union of the C struct is the constructor's last argument.
\<close>

datatype nir_deref_type =
    nir_deref_type_var
  | nir_deref_type_array
  | nir_deref_type_array_wildcard
  | nir_deref_type_struct
  | nir_deref_type_cast

datatype nir_deref_instr =
    Deref_var (mode: nir_variable_mode) (type: glsl_type) (var: nir_variable)
  | Deref_array (mode: nir_variable_mode) (type: glsl_type)
      (parent: nir_deref_instr) (arr_index: nir_src)
  | Deref_array_wildcard (mode: nir_variable_mode) (type: glsl_type)
      (parent: nir_deref_instr)
  | Deref_struct (mode: nir_variable_mode) (type: glsl_type)
      (parent: nir_deref_instr) (strct_index: u32)
  | Deref_cast (mode: nir_variable_mode) (type: glsl_type)
      (cast_parent: "nir_deref_instr option")

text \<open>
  Modelled from the spec: the chain navigation (\<^verbatim>\<open>nir_deref_instr_parent\<close>,
  \<^verbatim>\<open>nir_deref_instr_get_variable\<close>) is not part of this file.  A node gives its kind and
  its parent link; the variable node has no parent, a cast may have none, and the root
  variable of a chain is found by following the parents, unless a cast is in the way.
\<close>

fun deref_type :: "nir_deref_instr \<Rightarrow> nir_deref_type" where
  "deref_type (Deref_var m t v) = nir_deref_type_var"
| "deref_type (Deref_array m t p i) = nir_deref_type_array"
| "deref_type (Deref_array_wildcard m t p) = nir_deref_type_array_wildcard"
| "deref_type (Deref_struct m t p i) = nir_deref_type_struct"
| "deref_type (Deref_cast m t p) = nir_deref_type_cast"

fun nir_deref_instr_parent :: "nir_deref_instr \<Rightarrow> nir_deref_instr option" where
  "nir_deref_instr_parent (Deref_var m t v) = None"
| "nir_deref_instr_parent (Deref_array m t p i) = Some p"
| "nir_deref_instr_parent (Deref_array_wildcard m t p) = Some p"
| "nir_deref_instr_parent (Deref_struct m t p i) = Some p"
| "nir_deref_instr_parent (Deref_cast m t p) = p"

fun nir_deref_instr_get_variable :: "nir_deref_instr \<Rightarrow> nir_variable option" where
  "nir_deref_instr_get_variable (Deref_var m t v) = Some v"
| "nir_deref_instr_get_variable (Deref_array m t p i) = nir_deref_instr_get_variable p"
| "nir_deref_instr_get_variable (Deref_array_wildcard m t p) = nir_deref_instr_get_variable p"
| "nir_deref_instr_get_variable (Deref_struct m t p i) = nir_deref_instr_get_variable p"
| "nir_deref_instr_get_variable (Deref_cast m t p) = None"

subsection \<open>Instructions, blocks and function bodies\<close>

datatype nir_op = nir_op_imov | nir_op_iadd | nir_op_imul | nir_op_other nat

record nir_alu_instr =
  op :: nir_op
  alu_src :: "nir_src list"
  alu_dest :: nir_dest
  alu_write_mask :: "4 word"

datatype nir_intrinsic_op =
    nir_intrinsic_load_deref
  | nir_intrinsic_store_deref
  | nir_intrinsic_copy_deref
  | nir_intrinsic_other nat

text \<open>
  Of an intrinsic the pass reads \<^verbatim>\<open>src[0]\<close> as a dereference (\<open>src0_deref\<close>, what
  \<^verbatim>\<open>nir_src_as_deref\<close> returns), \<^verbatim>\<open>src[1]\<close>, the destination, the component count and the
  write mask (\<^verbatim>\<open>nir_intrinsic_write_mask\<close>).
\<close>

record nir_intrinsic_instr =
  intrinsic :: nir_intrinsic_op
  src0_deref :: nir_deref_instr
  src1 :: nir_src
  dest :: nir_dest
  intrin_num_components :: nat
  intrin_write_mask :: u32

text \<open>
  \<open>Instr_other\<close> stands for the instruction kinds the pass never looks into (call,
  texture, jump, undef, phi, parallel copy).
\<close>

datatype nir_instr =
    Instr_alu nir_alu_instr
  | Instr_deref nir_deref_instr
  | Instr_intrinsic nir_intrinsic_instr
  | Instr_load_const u32
  | Instr_other nat

text \<open>
  The control-flow graph is the blocks of the body in the order \<^verbatim>\<open>nir_foreach_block\<close>
  visits them; the edges are each block's successors and predecessors, as block indices.
\<close>

record nir_block =
  block_index :: nat
  instr_list :: "nir_instr list"
  successors :: "nat option \<times> nat option"
  predecessors :: "nat list"

datatype nir_metadata =
    nir_metadata_block_index
  | nir_metadata_dominance
  | nir_metadata_live_ssa_defs
  | nir_metadata_loop_analysis

record nir_function_impl =
  body :: "nir_block list"
  registers :: "nir_register list"
  reg_alloc :: nat
  valid_metadata :: "nir_metadata set"

text \<open>
  The builder inserts at a cursor.  The pass sets the cursor before the instruction it
  rewrites and removes that instruction afterwards, so the model keeps the instructions
  inserted at the cursor since it was set (\<open>inserted\<close>, in program order); they take the
  removed instruction's place in the block.
\<close>

record nir_builder =
  impl :: nir_function_impl
  inserted :: "nir_instr list"

record hash_entry =
  entry_hash :: u32
  key :: nir_deref_instr
  data :: nir_register

record locals_to_regs_state =
  builder :: nir_builder
  regs_table :: "hash_entry list"
  progress :: bool

section \<open>Hash and equality of dereference chains\<close>

text \<open>
  Modelled from the spec: the hash helpers \<^verbatim>\<open>_mesa_fnv32_1a_offset_bias\<close> and
  \<^verbatim>\<open>_mesa_fnv32_1a_accumulate\<close> are not part of this file.  The spec asks for a running
  hash into which the field index and the variable's identity are folded; the model folds
  the bytes of the value, least significant first, with the 32-bit FNV-1a step the
  helper's name stands for.  No theorem below uses more of the hash than that it is a
  function of the struct-field indices and the root variable.
\<close>

definition mesa_fnv32_1a_offset_bias :: u32 where
  "mesa_fnv32_1a_offset_bias = 2166136261"

definition mesa_fnv32_1a_accumulate_block :: "u32 \<Rightarrow> 8 word list \<Rightarrow> u32" where
  "mesa_fnv32_1a_accumulate_block hash bytes =
     foldl (\<lambda>h b. (h XOR ucast b) * 16777619) hash bytes"

definition bytes_of_u32 :: "u32 \<Rightarrow> 8 word list" where
  "bytes_of_u32 w = map (\<lambda>k. ucast (drop_bit (8 * k) w)) [0, 1, 2, 3]"

definition bytes_of_pointer :: "64 word \<Rightarrow> 8 word list" where
  "bytes_of_pointer w = map (\<lambda>k. ucast (drop_bit (8 * k) w)) [0, 1, 2, 3, 4, 5, 6, 7]"

fun hash_deref_loop :: "u32 \<Rightarrow> nir_deref_instr option \<Rightarrow> error + u32" where
  "hash_deref_loop hash None =
     Inl (Unreachable ''We should have hit a variable dereference'')"
| "hash_deref_loop hash (Some (Deref_var m t v)) =
     Inr (mesa_fnv32_1a_accumulate_block hash (bytes_of_pointer (var_addr v)))"
| "hash_deref_loop hash (Some (Deref_array m t p i)) = hash_deref_loop hash (Some p)"
| "hash_deref_loop hash (Some (Deref_struct m t p i)) =
     hash_deref_loop (mesa_fnv32_1a_accumulate_block hash (bytes_of_u32 i)) (Some p)"
| "hash_deref_loop hash (Some (Deref_array_wildcard m t p)) =
     Inl (Unreachable ''Invalid deref type'')"
| "hash_deref_loop hash (Some (Deref_cast m t p)) =
     Inl (Unreachable ''Invalid deref type'')"

definition hash_deref :: "nir_deref_instr \<Rightarrow> error + u32" where
  "hash_deref void_deref = hash_deref_loop mesa_fnv32_1a_offset_bias (Some void_deref)"

text \<open>
  The loop of \<^verbatim>\<open>derefs_equal\<close> runs while either pointer is non-null and reads
  \<^verbatim>\<open>a->deref_type\<close> and \<^verbatim>\<open>b->deref_type\<close> first, so one null pointer beside a non-null one
  is a null read.
\<close>

function derefs_equal_loop ::
  "nir_deref_instr option \<Rightarrow> nir_deref_instr option \<Rightarrow> error + bool" where
  "derefs_equal_loop None None =
     Inl (Unreachable ''We should have hit a variable dereference'')"
| "derefs_equal_loop None (Some b) = Inl Null_dereference"
| "derefs_equal_loop (Some a) None = Inl Null_dereference"
| "derefs_equal_loop (Some a) (Some b) =
     (if deref_type a \<noteq> deref_type b then Inr False
      else (case a of
          Deref_var m t v \<Rightarrow> Inr (v = var b)
        | Deref_array m t p i \<Rightarrow>
            derefs_equal_loop (nir_deref_instr_parent a) (nir_deref_instr_parent b)
        | Deref_struct m t p i \<Rightarrow>
            (if i \<noteq> strct_index b then Inr False
             else derefs_equal_loop (nir_deref_instr_parent a) (nir_deref_instr_parent b))
        | Deref_array_wildcard m t p \<Rightarrow> Inl (Unreachable ''Invalid deref type'')
        | Deref_cast m t p \<Rightarrow> Inl (Unreachable ''Invalid deref type'')))"
  by pat_completeness auto
termination
  by (relation "measure (\<lambda>(a, b). size_option size a)") auto

definition derefs_equal :: "nir_deref_instr \<Rightarrow> nir_deref_instr \<Rightarrow> error + bool" where
  "derefs_equal void_a void_b = derefs_equal_loop (Some void_a) (Some void_b)"

section \<open>The register table\<close>

text \<open>
  Modelled from the spec: the hash table (\<^verbatim>\<open>_mesa_hash_table_search_pre_hashed\<close>,
  \<^verbatim>\<open>_mesa_hash_table_insert_pre_hashed\<close>) is not part of this file.  It is the spec's
  deduplicating map with a precomputed hash: a search returns an entry whose stored hash
  is the given one and whose key the table's equality function accepts, and an insert
  after a failed search adds an entry.  The entries are kept in insertion order.
\<close>

fun mesa_hash_table_search_pre_hashed ::
  "hash_entry list \<Rightarrow> u32 \<Rightarrow> nir_deref_instr \<Rightarrow> error + hash_entry option" where
  "mesa_hash_table_search_pre_hashed [] hash k = Inr None"
| "mesa_hash_table_search_pre_hashed (e # es) hash k =
     (if entry_hash e = hash then
        (case derefs_equal k (key e) of
           Inl err \<Rightarrow> Inl err
         | Inr True \<Rightarrow> Inr (Some e)
         | Inr False \<Rightarrow> mesa_hash_table_search_pre_hashed es hash k)
      else mesa_hash_table_search_pre_hashed es hash k)"

definition mesa_hash_table_insert_pre_hashed ::
  "hash_entry list \<Rightarrow> u32 \<Rightarrow> nir_deref_instr \<Rightarrow> nir_register \<Rightarrow> hash_entry list" where
  "mesa_hash_table_insert_pre_hashed ht hash k d =
     ht @ [\<lparr>entry_hash = hash, key = k, data = d\<rparr>]"

text \<open>
  Modelled from the spec: \<^verbatim>\<open>nir_local_reg_create\<close> is not part of this file.  It
  allocates a register owned by the function: the new object takes the next index of the
  function's counter and joins the function's register list.
\<close>

definition nir_local_reg_create :: "nir_function_impl \<Rightarrow> nir_register \<times> nir_function_impl" where
  "nir_local_reg_create f =
     (let reg = \<lparr>reg_index = reg_alloc f, num_components = 0, num_array_elems = 0,
                 bit_size = 32\<rparr>
      in (reg, f\<lparr>registers := registers f @ [reg], reg_alloc := reg_alloc f + 1\<rparr>))"

text \<open>
  The register is written through its pointer after it has joined the list, so the
  write shows in the list too.
\<close>

definition reg_write :: "nir_register \<Rightarrow> nir_function_impl \<Rightarrow> nir_function_impl" where
  "reg_write reg f =
     f\<lparr>registers := map (\<lambda>r. if reg_index r = reg_index reg then reg else r) (registers f)\<rparr>"

fun array_size_loop :: "u32 \<Rightarrow> nir_deref_instr option \<Rightarrow> u32" where
  "array_size_loop array_size None = array_size"
| "array_size_loop array_size (Some (Deref_var m t v)) = array_size"
| "array_size_loop array_size (Some (Deref_array m t p i)) =
     array_size_loop (array_size * glsl_get_length (type p)) (Some p)"
| "array_size_loop array_size (Some (Deref_array_wildcard m t p)) =
     array_size_loop array_size (Some p)"
| "array_size_loop array_size (Some (Deref_struct m t p i)) =
     array_size_loop array_size (Some p)"
| "array_size_loop array_size (Some (Deref_cast m t p)) = array_size_loop array_size p"

definition get_reg_for_deref ::
  "nir_deref_instr \<Rightarrow> locals_to_regs_state \<Rightarrow> error + (nir_register \<times> locals_to_regs_state)" where
  "get_reg_for_deref deref state =
     (case hash_deref deref of
        Inl e \<Rightarrow> Inl e
      | Inr hash \<Rightarrow>
        (case nir_deref_instr_get_variable deref of
           None \<Rightarrow> Inl Null_dereference
         | Some v \<Rightarrow>
           if constant_initializer v \<noteq> None then
             Inl (Assertion_failed
               ''nir_deref_instr_get_variable(deref)->constant_initializer == NULL'')
           else
             (case mesa_hash_table_search_pre_hashed (regs_table state) hash deref of
                Inl e \<Rightarrow> Inl e
              | Inr (Some entry) \<Rightarrow> Inr (data entry, state)
              | Inr None \<Rightarrow>
                (let array_size = array_size_loop 1 (Some deref) in
                 if \<not> glsl_type_is_vector_or_scalar (type deref) then
                   Inl (Assertion_failed ''glsl_type_is_vector_or_scalar(deref->type)'')
                 else
                   (let (reg0, f) = nir_local_reg_create (impl (builder state));
                        reg = reg0\<lparr>num_components := glsl_get_vector_elements (type deref),
                                   num_array_elems :=
                                     (if 1 < array_size then array_size else 0),
                                   bit_size := glsl_get_bit_size (type deref)\<rparr>
                    in Inr (reg,
                         state\<lparr>builder := (builder state)\<lparr>impl := reg_write reg f\<rparr>,
                               regs_table :=
                                 mesa_hash_table_insert_pre_hashed (regs_table state)
                                   hash deref reg\<rparr>))))))"

section \<open>Linearizing the indices of a chain\<close>

text \<open>
  Modelled from the spec: the instruction builder (\<^verbatim>\<open>nir_imm_int\<close>, \<^verbatim>\<open>nir_iadd\<close>,
  \<^verbatim>\<open>nir_imul\<close>, \<^verbatim>\<open>nir_ssa_for_src\<close>, \<^verbatim>\<open>nir_builder_instr_insert\<close>) is not part of this
  file.  Each construction inserts one instruction at the cursor and returns the value
  it defines; an SSA index, which is one component wide, is used as it is, and a
  register index is first moved into an SSA value.
\<close>

definition nir_builder_init :: "nir_function_impl \<Rightarrow> nir_builder" where
  "nir_builder_init f = \<lparr>impl = f, inserted = []\<rparr>"

definition nir_builder_instr_insert :: "nir_builder \<Rightarrow> nir_instr \<Rightarrow> nir_builder" where
  "nir_builder_instr_insert b instr = b\<lparr>inserted := inserted b @ [instr]\<rparr>"

definition nir_imm_int :: "nir_builder \<Rightarrow> u32 \<Rightarrow> nir_ssa_def \<times> nir_builder" where
  "nir_imm_int b x = (Ssa_load_const x, nir_builder_instr_insert b (Instr_load_const x))"

definition nir_iadd :: "nir_builder \<Rightarrow> nir_ssa_def \<Rightarrow> nir_ssa_def \<Rightarrow> nir_ssa_def \<times> nir_builder" where
  "nir_iadd b x y =
     (Ssa_iadd x y,
      nir_builder_instr_insert b
        (Instr_alu \<lparr>op = nir_op_iadd, alu_src = [Src_ssa x, Src_ssa y],
                    alu_dest = Dest_ssa (Ssa_iadd x y), alu_write_mask = 1\<rparr>))"

definition nir_imul :: "nir_builder \<Rightarrow> nir_ssa_def \<Rightarrow> nir_ssa_def \<Rightarrow> nir_ssa_def \<times> nir_builder" where
  "nir_imul b x y =
     (Ssa_imul x y,
      nir_builder_instr_insert b
        (Instr_alu \<lparr>op = nir_op_imul, alu_src = [Src_ssa x, Src_ssa y],
                    alu_dest = Dest_ssa (Ssa_imul x y), alu_write_mask = 1\<rparr>))"

fun nir_ssa_for_src :: "nir_builder \<Rightarrow> nir_src \<Rightarrow> nir_ssa_def \<times> nir_builder" where
  "nir_ssa_for_src b (Src_ssa d) = (d, b)"
| "nir_ssa_for_src b (Src_reg r off ind) =
     (Ssa_imov (Src_reg r off ind),
      nir_builder_instr_insert b
        (Instr_alu \<lparr>op = nir_op_imov, alu_src = [Src_reg r off ind],
                    alu_dest = Dest_ssa (Ssa_imov (Src_reg r off ind)),
                    alu_write_mask = 1\<rparr>))"

text \<open>
  The body of the loop of \<^verbatim>\<open>get_deref_reg_src\<close> at an array link with index \<open>index\<close>:
  it takes and returns \<^verbatim>\<open>src.reg.base_offset\<close> and \<^verbatim>\<open>src.reg.indirect\<close>.  The operands of
  the nested builder calls are built from left to right.
\<close>

definition array_link ::
  "nir_builder \<Rightarrow> u32 \<Rightarrow> u32 \<Rightarrow> nir_src option \<Rightarrow> nir_src \<Rightarrow>
   error + (u32 \<times> nir_src option \<times> nir_builder)" where
  "array_link b inner_array_size off ind index =
     (if nir_src_as_const_value index \<noteq> None \<and> ind = None then
        Inr (off + the (nir_src_as_const_value index) * inner_array_size, ind, b)
      else
        (case (case ind of
                 Some i \<Rightarrow>
                   if off = 0 then Inr (off, i, b)
                   else Inl (Assertion_failed ''src.reg.base_offset == 0'')
               | None \<Rightarrow>
                   (let (d, b1) = nir_imm_int b off in Inr (0, Src_ssa d, b1))) of
           Inl e \<Rightarrow> Inl e
         | Inr (off1, i, b1) \<Rightarrow>
           (case i of
              Src_reg r ro ri \<Rightarrow> Inl (Assertion_failed ''src.reg.indirect->is_ssa'')
            | Src_ssa s \<Rightarrow>
              (let (x, b2) = nir_ssa_for_src b1 index;
                   (y, b3) = nir_imm_int b2 inner_array_size;
                   (m, b4) = nir_imul b3 x y;
                   (a, b5) = nir_iadd b4 s m
               in Inr (off1, Some (Src_ssa a), b5)))))"

fun get_deref_reg_src_loop ::
  "nir_builder \<Rightarrow> u32 \<Rightarrow> u32 \<Rightarrow> nir_src option \<Rightarrow> nir_deref_instr option \<Rightarrow>
   error + (u32 \<times> nir_src option \<times> nir_builder)" where
  "get_deref_reg_src_loop b inner_array_size off ind None = Inr (off, ind, b)"
| "get_deref_reg_src_loop b inner_array_size off ind (Some (Deref_var m t v)) =
     Inr (off, ind, b)"
| "get_deref_reg_src_loop b inner_array_size off ind (Some (Deref_array m t p i)) =
     (case array_link b inner_array_size off ind i of
        Inl e \<Rightarrow> Inl e
      | Inr (off1, ind1, b1) \<Rightarrow>
          get_deref_reg_src_loop b1 (inner_array_size * glsl_get_length (type p))
            off1 ind1 (Some p))"
| "get_deref_reg_src_loop b inner_array_size off ind (Some (Deref_array_wildcard m t p)) =
     get_deref_reg_src_loop b inner_array_size off ind (Some p)"
| "get_deref_reg_src_loop b inner_array_size off ind (Some (Deref_struct m t p i)) =
     get_deref_reg_src_loop b inner_array_size off ind (Some p)"
| "get_deref_reg_src_loop b inner_array_size off ind (Some (Deref_cast m t p)) =
     get_deref_reg_src_loop b inner_array_size off ind p"

definition get_deref_reg_src ::
  "nir_deref_instr \<Rightarrow> locals_to_regs_state \<Rightarrow> error + (nir_src \<times> locals_to_regs_state)" where
  "get_deref_reg_src deref state =
     (case get_reg_for_deref deref state of
        Inl e \<Rightarrow> Inl e
      | Inr (r, state1) \<Rightarrow>
          if num_array_elems r = 0 then Inr (Src_reg r 0 None, state1)
          else
            (case get_deref_reg_src_loop (builder state1) 1 0 None (Some deref) of
               Inl e \<Rightarrow> Inl e
             | Inr (off, ind, b) \<Rightarrow> Inr (Src_reg r off ind, state1\<lparr>builder := b\<rparr>)))"

section \<open>Rewriting the blocks\<close>

text \<open>
  The body of the loop over a block's instructions.  It returns the instructions that
  stand in the block where \<open>instr\<close> stood: \<open>instr\<close> itself when the pass leaves it alone,
  and otherwise what the builder inserted before it, \<open>instr\<close> having been removed.  When
  the load defines an SSA value the move defines a new one and every use of the load's
  value is pointed at it; a definition is identified by the value it stands for, so the
  move's destination is the load's.
\<close>

definition lower_instr ::
  "nir_instr \<Rightarrow> locals_to_regs_state \<Rightarrow> error + (nir_instr list \<times> locals_to_regs_state)" where
  "lower_instr instr state =
     (case instr of
        Instr_intrinsic intrin \<Rightarrow>
          (case intrinsic intrin of
             nir_intrinsic_load_deref \<Rightarrow>
               (let deref = src0_deref intrin in
                if mode deref \<noteq> nir_var_local then Inr ([instr], state)
                else
                  (case get_deref_reg_src deref
                          (state\<lparr>builder := (builder state)\<lparr>inserted := []\<rparr>\<rparr>) of
                     Inl e \<Rightarrow> Inl e
                   | Inr (s, state1) \<Rightarrow>
                     (let mov = \<lparr>op = nir_op_imov, alu_src = [s],
                                 alu_dest =
                                   (case dest intrin of
                                      Dest_ssa d \<Rightarrow> Dest_ssa d
                                    | Dest_reg r off ind \<Rightarrow> Dest_reg r off ind),
                                 alu_write_mask =
                                   ucast (push_bit (intrin_num_components intrin) (1 :: u32) - 1)\<rparr>;
                          b = nir_builder_instr_insert (builder state1) (Instr_alu mov)
                      in Inr (inserted b, state1\<lparr>builder := b, progress := True\<rparr>))))
           | nir_intrinsic_store_deref \<Rightarrow>
               (let deref = src0_deref intrin in
                if mode deref \<noteq> nir_var_local then Inr ([instr], state)
                else
                  (case get_deref_reg_src deref
                          (state\<lparr>builder := (builder state)\<lparr>inserted := []\<rparr>\<rparr>) of
                     Inl e \<Rightarrow> Inl e
                   | Inr (reg_src, state1) \<Rightarrow>
                     (let mov = \<lparr>op = nir_op_imov, alu_src = [src1 intrin],
                                 alu_dest =
                                   Dest_reg (reg_reg reg_src) (reg_base_offset reg_src)
                                     (reg_indirect reg_src),
                                 alu_write_mask = ucast (intrin_write_mask intrin)\<rparr>;
                          b = nir_builder_instr_insert (builder state1) (Instr_alu mov)
                      in Inr (inserted b, state1\<lparr>builder := b, progress := True\<rparr>))))
           | nir_intrinsic_copy_deref \<Rightarrow>
               Inl (Unreachable ''There should be no copies whatsoever at this point'')
           | nir_intrinsic_other n \<Rightarrow> Inr ([instr], state))
      | Instr_alu a \<Rightarrow> Inr ([instr], state)
      | Instr_deref d \<Rightarrow> Inr ([instr], state)
      | Instr_load_const c \<Rightarrow> Inr ([instr], state)
      | Instr_other n \<Rightarrow> Inr ([instr], state))"

fun lower_instrs ::
  "nir_instr list \<Rightarrow> locals_to_regs_state \<Rightarrow> error + (nir_instr list \<times> locals_to_regs_state)" where
  "lower_instrs [] state = Inr ([], state)"
| "lower_instrs (instr # rest) state =
     (case lower_instr instr state of
        Inl e \<Rightarrow> Inl e
      | Inr (out, state1) \<Rightarrow>
        (case lower_instrs rest state1 of
           Inl e \<Rightarrow> Inl e
         | Inr (out_rest, state2) \<Rightarrow> Inr (out @ out_rest, state2)))"

definition lower_locals_to_regs_block ::
  "nir_block \<Rightarrow> locals_to_regs_state \<Rightarrow> error + (nir_block \<times> locals_to_regs_state)" where
  "lower_locals_to_regs_block block state =
     (case lower_instrs (instr_list block) state of
        Inl e \<Rightarrow> Inl e
      | Inr (instrs, state1) \<Rightarrow> Inr (block\<lparr>instr_list := instrs\<rparr>, state1))"

section \<open>The pass\<close>

text \<open>
  Modelled from the spec: the metadata protocol (\<^verbatim>\<open>nir_metadata_require\<close>,
  \<^verbatim>\<open>nir_metadata_preserve\<close>) is not part of this file.  Requiring makes the named
  analyses valid; preserving keeps valid only the named ones.
\<close>

definition nir_metadata_require :: "nir_function_impl \<Rightarrow> nir_metadata set \<Rightarrow> nir_function_impl" where
  "nir_metadata_require f required = f\<lparr>valid_metadata := valid_metadata f \<union> required\<rparr>"

definition nir_metadata_preserve :: "nir_function_impl \<Rightarrow> nir_metadata set \<Rightarrow> nir_function_impl" where
  "nir_metadata_preserve f preserved = f\<lparr>valid_metadata := valid_metadata f \<inter> preserved\<rparr>"

fun foreach_block ::
  "nir_block list \<Rightarrow> locals_to_regs_state \<Rightarrow> error + (nir_block list \<times> locals_to_regs_state)" where
  "foreach_block [] state = Inr ([], state)"
| "foreach_block (block # rest) state =
     (case lower_locals_to_regs_block block state of
        Inl e \<Rightarrow> Inl e
      | Inr (block1, state1) \<Rightarrow>
        (case foreach_block rest state1 of
           Inl e \<Rightarrow> Inl e
         | Inr (rest1, state2) \<Rightarrow> Inr (block1 # rest1, state2)))"

text \<open>
  The builder points at the function being lowered.  The state carries the function with
  its registers; the rewritten blocks are put back into it when the walk is over.
\<close>

definition nir_lower_locals_to_regs_impl ::
  "nir_function_impl \<Rightarrow> error + (bool \<times> nir_function_impl)" where
  "nir_lower_locals_to_regs_impl f =
     (let f1 = nir_metadata_require f {nir_metadata_dominance};
          state = \<lparr>builder = nir_builder_init f1, regs_table = [], progress = False\<rparr>
      in case foreach_block (body f1) state of
           Inl e \<Rightarrow> Inl e
         | Inr (blocks, state1) \<Rightarrow>
             Inr (progress state1,
                  nir_metadata_preserve ((impl (builder state1))\<lparr>body := blocks\<rparr>)
                    {nir_metadata_block_index, nir_metadata_dominance}))"

text \<open>A shader is its functions; a function may have no body.\<close>

fun nir_lower_locals_to_regs ::
  "nir_function_impl option list \<Rightarrow> error + (bool \<times> nir_function_impl option list)" where
  "nir_lower_locals_to_regs [] = Inr (False, [])"
| "nir_lower_locals_to_regs (None # fs) =
     (case nir_lower_locals_to_regs fs of
        Inl e \<Rightarrow> Inl e
      | Inr (p, fs1) \<Rightarrow> Inr (p, None # fs1))"
| "nir_lower_locals_to_regs (Some f # fs) =
     (case nir_lower_locals_to_regs_impl f of
        Inl e \<Rightarrow> Inl e
      | Inr (p0, f1) \<Rightarrow>
        (case nir_lower_locals_to_regs fs of
           Inl e \<Rightarrow> Inl e
         | Inr (p, fs1) \<Rightarrow> Inr (p0 \<or> p, Some f1 # fs1)))"

section \<open>Notions of the specification\<close>

text \<open>
  The definitions of this section follow the specification's words, not the code; the
  theorems below compare the code with them.
\<close>

text \<open>
  The declared element count of the array type at every array-index link of a chain,
  from the leaf to the root.
\<close>

fun array_lengths :: "nir_deref_instr \<Rightarrow> u32 list" where
  "array_lengths (Deref_var m t v) = []"
| "array_lengths (Deref_array m t p i) = glsl_get_length (type p) # array_lengths p"
| "array_lengths (Deref_array_wildcard m t p) = array_lengths p"
| "array_lengths (Deref_struct m t p i) = array_lengths p"
| "array_lengths (Deref_cast m t p) = (case p of None \<Rightarrow> [] | Some q \<Rightarrow> array_lengths q)"

subsection \<open>Canonical identity and well-formed chains\<close>

text \<open>
  The links of a chain from the leaf to the root, without the index operands of the
  array links, and the struct-field indices among them.
\<close>

datatype deref_link = Link_array | Link_struct u32

fun deref_links :: "nir_deref_instr \<Rightarrow> deref_link list" where
  "deref_links (Deref_var m t v) = []"
| "deref_links (Deref_array m t p i) = Link_array # deref_links p"
| "deref_links (Deref_array_wildcard m t p) = []"
| "deref_links (Deref_struct m t p i) = Link_struct i # deref_links p"
| "deref_links (Deref_cast m t p) = []"

fun link_fields :: "deref_link list \<Rightarrow> u32 list" where
  "link_fields [] = []"
| "link_fields (Link_array # ls) = link_fields ls"
| "link_fields (Link_struct i # ls) = i # link_fields ls"

text \<open>The ordered sequence of struct-field indices of a chain, from the leaf to the root.\<close>

fun struct_path :: "nir_deref_instr \<Rightarrow> u32 list" where
  "struct_path (Deref_var m t v) = []"
| "struct_path (Deref_array m t p i) = struct_path p"
| "struct_path (Deref_array_wildcard m t p) = struct_path p"
| "struct_path (Deref_struct m t p i) = i # struct_path p"
| "struct_path (Deref_cast m t p) = (case p of None \<Rightarrow> [] | Some q \<Rightarrow> struct_path q)"

text \<open>
  A chain is well typed when it ends at a variable, the root has the variable's type, an
  array-index link indexes an array and has its element type, and a struct-field link
  selects an existing field of a struct and has that field's type.  A well-formed chain
  of this pass is well typed, its leaf is a vector or scalar and its root variable has no
  constant initializer, which is what \<^verbatim>\<open>get_reg_for_deref\<close> asserts.
\<close>

fun deref_well_typed :: "nir_deref_instr \<Rightarrow> bool" where
  "deref_well_typed (Deref_var m t v) = (t = var_type v)"
| "deref_well_typed (Deref_array m t p i) =
     (deref_well_typed p \<and> (case type p of Glsl_array e n \<Rightarrow> e = t | _ \<Rightarrow> False))"
| "deref_well_typed (Deref_array_wildcard m t p) = False"
| "deref_well_typed (Deref_struct m t p i) =
     (deref_well_typed p \<and>
      (case type p of
         Glsl_struct fs \<Rightarrow> unat i < length fs \<and> fs ! unat i = t
       | _ \<Rightarrow> False))"
| "deref_well_typed (Deref_cast m t p) = False"

definition well_formed :: "nir_deref_instr \<Rightarrow> bool" where
  "well_formed d =
     (deref_well_typed d \<and> glsl_type_is_vector_or_scalar (type d) \<and>
      (case nir_deref_instr_get_variable d of
         None \<Rightarrow> False
       | Some v \<Rightarrow> constant_initializer v = None))"

text \<open>
  The specification's canonical identity: the root variable and the ordered sequence of
  struct-field indices.
\<close>

definition canonical_identity :: "nir_deref_instr \<Rightarrow> nir_variable option \<times> u32 list" where
  "canonical_identity d = (nir_deref_instr_get_variable d, struct_path d)"

text \<open>The type that a path of links leads to, from the type of the root.\<close>

fun walk_type :: "glsl_type \<Rightarrow> deref_link list \<Rightarrow> glsl_type option" where
  "walk_type t [] = Some t"
| "walk_type (Glsl_array e n) (Link_array # ls) = walk_type e ls"
| "walk_type (Glsl_struct fs) (Link_struct i # ls) =
     (if unat i < length fs then walk_type (fs ! unat i) ls else None)"
| "walk_type t (l # ls) = None"

text \<open>
  The calls of \<^verbatim>\<open>get_reg_for_deref\<close> that the lowering of one function makes, one per
  chain and in order, on the state they share.
\<close>

fun get_regs_for_derefs ::
  "nir_deref_instr list \<Rightarrow> locals_to_regs_state \<Rightarrow>
   error + (nir_register list \<times> locals_to_regs_state)" where
  "get_regs_for_derefs [] state = Inr ([], state)"
| "get_regs_for_derefs (d # ds) state =
     (case get_reg_for_deref d state of
        Inl e \<Rightarrow> Inl e
      | Inr (r, state1) \<Rightarrow>
        (case get_regs_for_derefs ds state1 of
           Inl e \<Rightarrow> Inl e
         | Inr (rs, state2) \<Rightarrow> Inr (r # rs, state2)))"

text \<open>
  The register that the table holds for a canonical identity, and the invariant of the
  table: the keys are well-formed chains stored under their hash, the registers are
  registers of the function, and no two entries share an identity or a register.
\<close>

definition table_reg ::
  "locals_to_regs_state \<Rightarrow> nir_variable option \<times> u32 list \<Rightarrow> nir_register option" where
  "table_reg s c =
     map_option data (find (\<lambda>e. canonical_identity (key e) = c) (regs_table s))"

definition table_ok :: "locals_to_regs_state \<Rightarrow> bool" where
  "table_ok s =
     ((\<forall>e\<in>set (regs_table s).
         well_formed (key e) \<and> hash_deref (key e) = Inr (entry_hash e) \<and>
         reg_index (data e) < reg_alloc (impl (builder s))) \<and>
      distinct (map (\<lambda>e. canonical_identity (key e)) (regs_table s)) \<and>
      distinct (map (\<lambda>e. reg_index (data e)) (regs_table s)))"

subsection \<open>Operands, instructions and invariants\<close>

text \<open>
  Modelled from the spec: the meaning of a register operand is not part of this file.  A
  RegisterOperand is a register, a base offset and an optional dynamic index expression;
  the slot it addresses is the base offset plus the value of the dynamic index.  Values
  are 32-bit: \<open>vals\<close> gives the values of the program's definitions and \<open>regs\<close> the
  contents of the registers.
\<close>

fun eval_ssa_def :: "(nat \<Rightarrow> u32) \<Rightarrow> (nir_register \<Rightarrow> u32 \<Rightarrow> u32) \<Rightarrow> nir_ssa_def \<Rightarrow> u32"
  and eval_src :: "(nat \<Rightarrow> u32) \<Rightarrow> (nir_register \<Rightarrow> u32 \<Rightarrow> u32) \<Rightarrow> nir_src \<Rightarrow> u32" where
  "eval_ssa_def vals regs (Ssa_value n) = vals n"
| "eval_ssa_def vals regs (Ssa_load_const c) = c"
| "eval_ssa_def vals regs (Ssa_iadd x y) = eval_ssa_def vals regs x + eval_ssa_def vals regs y"
| "eval_ssa_def vals regs (Ssa_imul x y) = eval_ssa_def vals regs x * eval_ssa_def vals regs y"
| "eval_ssa_def vals regs (Ssa_imov s) = eval_src vals regs s"
| "eval_src vals regs (Src_ssa d) = eval_ssa_def vals regs d"
| "eval_src vals regs (Src_reg r off ind) =
     regs r (off + (case ind of None \<Rightarrow> 0 | Some i \<Rightarrow> eval_src vals regs i))"

definition reg_src_address ::
  "(nat \<Rightarrow> u32) \<Rightarrow> (nir_register \<Rightarrow> u32 \<Rightarrow> u32) \<Rightarrow> nir_src \<Rightarrow> u32" where
  "reg_src_address vals regs s =
     reg_base_offset s +
     (case reg_indirect s of None \<Rightarrow> 0 | Some i \<Rightarrow> eval_src vals regs i)"

text \<open>A load or store instruction that addresses local storage; a copy instruction.\<close>

fun local_access :: "nir_instr \<Rightarrow> bool" where
  "local_access (Instr_intrinsic intrin) =
     ((intrinsic intrin = nir_intrinsic_load_deref \<or>
       intrinsic intrin = nir_intrinsic_store_deref) \<and>
      mode (src0_deref intrin) = nir_var_local)"
| "local_access (Instr_alu a) = False"
| "local_access (Instr_deref d) = False"
| "local_access (Instr_load_const c) = False"
| "local_access (Instr_other n) = False"

fun is_copy :: "nir_instr \<Rightarrow> bool" where
  "is_copy (Instr_intrinsic intrin) = (intrinsic intrin = nir_intrinsic_copy_deref)"
| "is_copy (Instr_alu a) = False"
| "is_copy (Instr_deref d) = False"
| "is_copy (Instr_load_const c) = False"
| "is_copy (Instr_other n) = False"

text \<open>An instruction the pass leaves alone.\<close>

definition settled :: "nir_instr \<Rightarrow> bool" where
  "settled instr = (\<not> local_access instr \<and> \<not> is_copy instr)"

text \<open>
  The invariant of the linearization walk: an indirect, once it exists, is an SSA source
  and the base offset beside it is 0.
\<close>

definition offset_ok :: "u32 \<Rightarrow> nir_src option \<Rightarrow> bool" where
  "offset_ok off ind =
     (case ind of
        None \<Rightarrow> True
      | Some (Src_ssa s) \<Rightarrow> off = 0
      | Some (Src_reg r ro ri) \<Rightarrow> False)"

subsection \<open>Example inputs\<close>

definition example_state :: locals_to_regs_state where
  "example_state =
     \<lparr>builder = nir_builder_init
        \<lparr>body = [], registers = [], reg_alloc = 0, valid_metadata = {}\<rparr>,
      regs_table = [], progress = False\<rparr>"

text \<open>A local float with a constant initializer, and the chain that is the variable.\<close>

definition initialized_var :: nir_variable where
  "initialized_var =
     \<lparr>var_addr = 8192, var_type = Glsl_vector 1 32, var_mode = nir_var_local,
      constant_initializer = Some (Nir_constant [7])\<rparr>"

definition initialized_deref :: nir_deref_instr where
  "initialized_deref = Deref_var nir_var_local (Glsl_vector 1 32) initialized_var"

text \<open>A local array of one vec4, read at a dynamic index.\<close>

definition single_var :: nir_variable where
  "single_var =
     \<lparr>var_addr = 12288, var_type = Glsl_array (Glsl_vector 4 32) 1,
      var_mode = nir_var_local, constant_initializer = None\<rparr>"

definition single_access :: "nir_src \<Rightarrow> nir_deref_instr" where
  "single_access i =
     Deref_array nir_var_local (Glsl_vector 4 32)
       (Deref_var nir_var_local (Glsl_array (Glsl_vector 4 32) 1) single_var) i"

text \<open>A local \<^verbatim>\<open>float[3][4]\<close>, accessed at \<^verbatim>\<open>[i][2]\<close>.\<close>

definition grid_var :: nir_variable where
  "grid_var =
     \<lparr>var_addr = 4096, var_type = Glsl_array (Glsl_array (Glsl_vector 1 32) 4) 3,
      var_mode = nir_var_local, constant_initializer = None\<rparr>"

definition grid_access :: "nir_src \<Rightarrow> nir_deref_instr" where
  "grid_access i =
     Deref_array nir_var_local (Glsl_vector 1 32)
       (Deref_array nir_var_local (Glsl_array (Glsl_vector 1 32) 4)
          (Deref_var nir_var_local (Glsl_array (Glsl_array (Glsl_vector 1 32) 4) 3) grid_var)
          i)
       (Src_ssa (Ssa_load_const 2))"

text \<open>A copy between two local chains.\<close>

definition copy_instr :: nir_intrinsic_instr where
  "copy_instr =
     \<lparr>intrinsic = nir_intrinsic_copy_deref,
      src0_deref = single_access (Src_ssa (Ssa_load_const 0)),
      src1 = Src_ssa (Ssa_value 0), dest = Dest_ssa (Ssa_value 1),
      intrin_num_components = 4, intrin_write_mask = 15\<rparr>"

text \<open>
  The specification's example scenario: a local array of 4 vec4, a block that stores a
  value at index 1 and loads it back, and a second block after it; and the function the
  pass is expected to make of it.
\<close>

definition vec4_array_var :: nir_variable where
  "vec4_array_var =
     \<lparr>var_addr = 16384, var_type = Glsl_array (Glsl_vector 4 32) 4,
      var_mode = nir_var_local, constant_initializer = None\<rparr>"

definition vec4_array_access :: "nir_src \<Rightarrow> nir_deref_instr" where
  "vec4_array_access i =
     Deref_array nir_var_local (Glsl_vector 4 32)
       (Deref_var nir_var_local (Glsl_array (Glsl_vector 4 32) 4) vec4_array_var) i"

definition example_store :: nir_intrinsic_instr where
  "example_store =
     \<lparr>intrinsic = nir_intrinsic_store_deref,
      src0_deref = vec4_array_access (Src_ssa (Ssa_load_const 1)),
      src1 = Src_ssa (Ssa_value 10), dest = Dest_ssa (Ssa_value 0),
      intrin_num_components = 4, intrin_write_mask = 15\<rparr>"

definition example_load :: nir_intrinsic_instr where
  "example_load =
     \<lparr>intrinsic = nir_intrinsic_load_deref,
      src0_deref = vec4_array_access (Src_ssa (Ssa_load_const 1)),
      src1 = Src_ssa (Ssa_value 0), dest = Dest_ssa (Ssa_value 11),
      intrin_num_components = 4, intrin_write_mask = 0\<rparr>"

definition example_impl :: nir_function_impl where
  "example_impl =
     \<lparr>body =
        [\<lparr>block_index = 0,
          instr_list = [Instr_load_const 1, Instr_intrinsic example_store,
                        Instr_intrinsic example_load],
          successors = (Some 1, None), predecessors = []\<rparr>,
         \<lparr>block_index = 1, instr_list = [Instr_other 0],
          successors = (None, None), predecessors = [0]\<rparr>],
      registers = [], reg_alloc = 0, valid_metadata = {}\<rparr>"

definition example_reg :: nir_register where
  "example_reg = \<lparr>reg_index = 0, num_components = 4, num_array_elems = 4, bit_size = 32\<rparr>"

definition example_lowered :: nir_function_impl where
  "example_lowered =
     \<lparr>body =
        [\<lparr>block_index = 0,
          instr_list =
            [Instr_load_const 1,
             Instr_alu \<lparr>op = nir_op_imov, alu_src = [Src_ssa (Ssa_value 10)],
                        alu_dest = Dest_reg example_reg 1 None, alu_write_mask = 15\<rparr>,
             Instr_alu \<lparr>op = nir_op_imov, alu_src = [Src_reg example_reg 1 None],
                        alu_dest = Dest_ssa (Ssa_value 11), alu_write_mask = 15\<rparr>],
          successors = (Some 1, None), predecessors = []\<rparr>,
         \<lparr>block_index = 1, instr_list = [Instr_other 0],
          successors = (None, None), predecessors = [0]\<rparr>],
      registers = [example_reg], reg_alloc = 1,
      valid_metadata = {nir_metadata_dominance}\<rparr>"

text \<open>
  A local struct of a float and an array of two floats: the chain to the first field, and
  the chain to an element of the second.
\<close>

definition pair_var :: nir_variable where
  "pair_var =
     \<lparr>var_addr = 20480,
      var_type = Glsl_struct [Glsl_vector 1 32, Glsl_array (Glsl_vector 1 32) 2],
      var_mode = nir_var_local, constant_initializer = None\<rparr>"

definition pair_first :: nir_deref_instr where
  "pair_first =
     Deref_struct nir_var_local (Glsl_vector 1 32)
       (Deref_var nir_var_local
          (Glsl_struct [Glsl_vector 1 32, Glsl_array (Glsl_vector 1 32) 2]) pair_var) 0"

definition pair_second :: "nir_src \<Rightarrow> nir_deref_instr" where
  "pair_second i =
     Deref_array nir_var_local (Glsl_vector 1 32)
       (Deref_struct nir_var_local (Glsl_array (Glsl_vector 1 32) 2)
          (Deref_var nir_var_local
             (Glsl_struct [Glsl_vector 1 32, Glsl_array (Glsl_vector 1 32) 2]) pair_var) 1)
       i"

section \<open>Properties of the register table\<close>

lemma array_size_loop_prod:
  "array_size_loop a (Some d) = a * prod_list (array_lengths d)"
proof (induction d arbitrary: a)
  case (Deref_cast m t p)
  then show ?case by (cases p) auto
qed (simp_all add: mult.assoc)

lemma word_not_gt_one: "(\<not> 1 < (a :: u32)) = (a = 0 \<or> a = 1)"
proof -
  have "(\<not> 1 < a) = (unat a \<le> 1)"
    by (simp add: word_less_nat_alt not_less)
  also have "\<dots> = (unat a = 0 \<or> unat a = 1)"
    by auto
  also have "\<dots> = (a = 0 \<or> a = 1)"
    by (simp add: word_unat_eq_iff)
  finally show ?thesis .
qed

lemma prod_list_unat:
  "prod_list (map unat xs) < 2 ^ 32 \<Longrightarrow>
   unat (prod_list (xs :: u32 list)) = prod_list (map unat xs)"
proof (induction xs)
  case Nil
  then show ?case by simp
next
  case (Cons x xs)
  show ?case
  proof (cases "x = 0")
    case True
    then show ?thesis by simp
  next
    case False
    then have "1 \<le> unat x"
      by (simp add: unat_eq_0 Suc_le_eq unat_gt_0)
    then have le: "prod_list (map unat xs) \<le> unat x * prod_list (map unat xs)"
      by (cases "unat x") auto
    have P: "unat x * prod_list (map unat xs) < 2 ^ 32"
      using Cons.prems by simp
    from le P have "prod_list (map unat xs) < 2 ^ 32"
      by (rule le_less_trans)
    with Cons.IH have IH: "unat (prod_list xs) = prod_list (map unat xs)"
      by simp
    with P have "unat x * unat (prod_list xs) < 2 ^ LENGTH(32)"
      by simp
    then have "unat (x * prod_list xs) = unat x * unat (prod_list xs)"
      by (rule unat_mult_lem [THEN iffD1])
    with IH show ?thesis by simp
  qed
qed

lemma hash_deref_loop_no_assertion:
  "hash_deref_loop h d \<noteq> Inl (Assertion_failed s)"
  by (induction h d rule: hash_deref_loop.induct) auto

lemma derefs_equal_loop_no_assertion:
  "derefs_equal_loop a b \<noteq> Inl (Assertion_failed s)"
  by (induction a b rule: derefs_equal_loop.induct)
    (auto split: nir_deref_instr.splits)

lemma search_no_assertion:
  "mesa_hash_table_search_pre_hashed ht h k \<noteq> Inl (Assertion_failed s)"
  by (induction ht)
    (auto simp: derefs_equal_def derefs_equal_loop_no_assertion
      simp del: derefs_equal_loop.simps split: sum.splits bool.splits)

lemma search_append:
  "mesa_hash_table_search_pre_hashed (xs @ ys) h k =
     (case mesa_hash_table_search_pre_hashed xs h k of
        Inl e \<Rightarrow> Inl e
      | Inr (Some x) \<Rightarrow> Inr (Some x)
      | Inr None \<Rightarrow> mesa_hash_table_search_pre_hashed ys h k)"
  by (induction xs) (auto split: sum.splits bool.splits option.splits)

lemma derefs_equal_loop_left:
  "derefs_equal_loop a b = Inr True \<Longrightarrow> derefs_equal_loop a c = derefs_equal_loop b c"
proof (induction a b arbitrary: c rule: derefs_equal_loop.induct)
  case (4 a b)
  show ?case
  proof (cases c)
    case None
    then show ?thesis by simp
  next
    case (Some c')
    from "4.prems" have ty: "deref_type a = deref_type b"
      by (auto split: if_splits)
    show ?thesis
    proof (cases a)
      case (Deref_var m t v)
      with ty "4.prems" Some show ?thesis by (cases b) (auto split: if_splits)
    next
      case (Deref_array m t p i)
      with ty obtain m' t' p' i' where b: "b = Deref_array m' t' p' i'" by (cases b) auto
      from "4.prems" Deref_array b have "derefs_equal_loop (Some p) (Some p') = Inr True"
        by simp
      with "4.IH"(1) [OF _ Deref_array, of "nir_deref_instr_parent c'"] ty Deref_array b
      have "derefs_equal_loop (Some p) (nir_deref_instr_parent c') =
          derefs_equal_loop (Some p') (nir_deref_instr_parent c')" by simp
      with Deref_array b Some show ?thesis by simp
    next
      case (Deref_struct m t p i)
      with ty obtain m' t' p' i' where b: "b = Deref_struct m' t' p' i'" by (cases b) auto
      from "4.prems" Deref_struct b have i: "i = i'"
        and "derefs_equal_loop (Some p) (Some p') = Inr True"
        by (auto split: if_splits)
      with "4.IH"(2) [OF _ Deref_struct, of "nir_deref_instr_parent c'"] ty Deref_struct b
      have "derefs_equal_loop (Some p) (nir_deref_instr_parent c') =
          derefs_equal_loop (Some p') (nir_deref_instr_parent c')" by simp
      with Deref_struct b Some i show ?thesis by simp
    next
      case (Deref_array_wildcard m t p)
      with ty "4.prems" show ?thesis by simp
    next
      case (Deref_cast m t p)
      with ty "4.prems" show ?thesis by simp
    qed
  qed
qed simp_all

lemma derefs_equal_loop_hash:
  "derefs_equal_loop a b = Inr True \<Longrightarrow> hash_deref_loop h a = hash_deref_loop h b"
proof (induction a b arbitrary: h rule: derefs_equal_loop.induct)
  case (4 a b)
  from "4.prems" have ty: "deref_type a = deref_type b"
    by (auto split: if_splits)
  show ?case
  proof (cases a)
    case (Deref_var m t v)
    with ty "4.prems" show ?thesis by (cases b) (auto split: if_splits)
  next
    case (Deref_array m t p i)
    with ty obtain m' t' p' i' where b: "b = Deref_array m' t' p' i'" by (cases b) auto
    from "4.prems" Deref_array b have "derefs_equal_loop (Some p) (Some p') = Inr True"
      by simp
    with "4.IH"(1) [OF _ Deref_array, of h] ty Deref_array b show ?thesis by simp
  next
    case (Deref_struct m t p i)
    with ty obtain m' t' p' i' where b: "b = Deref_struct m' t' p' i'" by (cases b) auto
    from "4.prems" Deref_struct b have i: "i = i'"
      and "derefs_equal_loop (Some p) (Some p') = Inr True"
      by (auto split: if_splits)
    with "4.IH"(2) [OF _ Deref_struct, of "mesa_fnv32_1a_accumulate_block h (bytes_of_u32 i)"]
      ty Deref_struct b show ?thesis by simp
  next
    case (Deref_array_wildcard m t p)
    with ty "4.prems" show ?thesis by simp
  next
    case (Deref_cast m t p)
    with ty "4.prems" show ?thesis by simp
  qed
qed simp_all

lemma derefs_equal_loop_variable:
  "derefs_equal_loop (Some a) (Some b) = Inr True \<Longrightarrow>
   nir_deref_instr_get_variable a = nir_deref_instr_get_variable b"
proof (induction a arbitrary: b)
  case (Deref_var m t v)
  then show ?case by (cases b) (auto split: if_splits)
next
  case (Deref_array m t p i)
  then show ?case by (cases b) (auto split: if_splits)
next
  case (Deref_struct m t p i)
  then show ?case by (cases b) (auto split: if_splits)
qed (auto split: if_splits)

lemma get_reg_for_deref_fresh:
  assumes "hash_deref deref = Inr h"
    and "mesa_hash_table_search_pre_hashed (regs_table state) h deref = Inr None"
    and "get_reg_for_deref deref state = Inr (r, state1)"
  shows "num_array_elems r =
           (if 1 < prod_list (array_lengths deref) then prod_list (array_lengths deref) else 0)"
    and "regs_table state1 = regs_table state @ [\<lparr>entry_hash = h, key = deref, data = r\<rparr>]"
    and "\<exists>v. nir_deref_instr_get_variable deref = Some v \<and> constant_initializer v = None"
  using assms
  by (auto simp: get_reg_for_deref_def Let_def nir_local_reg_create_def
      mesa_hash_table_insert_pre_hashed_def
      array_size_loop_prod split: option.splits if_splits)

lemma link_fields_append: "link_fields (xs @ ys) = link_fields xs @ link_fields ys"
  by (induction xs rule: link_fields.induct) auto

lemma link_fields_rev: "link_fields (rev xs) = rev (link_fields xs)"
  by (induction xs rule: link_fields.induct) (auto simp: link_fields_append)

lemma struct_path_links: "deref_well_typed d \<Longrightarrow> struct_path d = link_fields (deref_links d)"
  by (induction d) auto

lemma well_typed_variable: "deref_well_typed d \<Longrightarrow> \<exists>v. nir_deref_instr_get_variable d = Some v"
  by (induction d) auto

lemma walk_type_append:
  "walk_type t (xs @ ys) = (case walk_type t xs of None \<Rightarrow> None | Some u \<Rightarrow> walk_type u ys)"
  by (induction t xs rule: walk_type.induct) auto

lemma well_typed_walk:
  "deref_well_typed d \<Longrightarrow> nir_deref_instr_get_variable d = Some v \<Longrightarrow>
   walk_type (var_type v) (rev (deref_links d)) = Some (type d)"
  by (induction d) (auto simp: walk_type_append split: glsl_type.splits)

lemma walk_type_vector_nil:
  "walk_type (Glsl_vector n b) p = Some u \<Longrightarrow> p = []"
  by (cases p) auto

lemma walk_type_unique:
  "walk_type t p = Some u \<Longrightarrow> walk_type t q = Some u' \<Longrightarrow>
   glsl_type_is_vector_or_scalar u \<Longrightarrow> glsl_type_is_vector_or_scalar u' \<Longrightarrow>
   link_fields p = link_fields q \<Longrightarrow> p = q"
proof (induction t p arbitrary: q rule: walk_type.induct)
  case (1 t)
  then show ?case by (cases t; cases q) auto
next
  case (2 e n ls)
  then show ?case by (cases q rule: link_fields.cases) auto
next
  case (3 fs i ls)
  then show ?case by (cases q rule: link_fields.cases) (auto split: if_splits)
qed auto

lemma hash_deref_loop_canonical:
  "deref_well_typed d \<Longrightarrow> nir_deref_instr_get_variable d = Some v \<Longrightarrow>
   hash_deref_loop h (Some d) =
     Inr (mesa_fnv32_1a_accumulate_block
            (foldl (\<lambda>h i. mesa_fnv32_1a_accumulate_block h (bytes_of_u32 i)) h (struct_path d))
            (bytes_of_pointer (var_addr v)))"
  by (induction d arbitrary: h) auto

lemma derefs_equal_loop_links:
  "deref_well_typed a \<Longrightarrow> deref_well_typed b \<Longrightarrow>
   derefs_equal_loop (Some a) (Some b) =
     Inr (nir_deref_instr_get_variable a = nir_deref_instr_get_variable b \<and>
          deref_links a = deref_links b)"
proof (induction a arbitrary: b)
  case (Deref_var m t v)
  then show ?case by (cases b) auto
next
  case (Deref_array m t p i)
  then show ?case by (cases b) auto
next
  case (Deref_struct m t p i)
  then show ?case by (cases b) auto
qed auto

lemma well_formed_links:
  assumes "well_formed a" and "well_formed b"
    and "canonical_identity a = canonical_identity b"
  shows "deref_links a = deref_links b"
proof -
  from assms(1) obtain v where va: "nir_deref_instr_get_variable a = Some v"
    by (auto simp: well_formed_def split: option.splits)
  with assms(3) have vb: "nir_deref_instr_get_variable b = Some v"
    by (simp add: canonical_identity_def)
  from assms have ta: "deref_well_typed a" and tb: "deref_well_typed b"
    by (auto simp: well_formed_def)
  from assms(3) have "link_fields (rev (deref_links a)) = link_fields (rev (deref_links b))"
    by (simp add: canonical_identity_def struct_path_links [OF ta] struct_path_links [OF tb]
        link_fields_rev)
  with walk_type_unique [OF well_typed_walk [OF ta va] well_typed_walk [OF tb vb]] assms(1,2)
  have "rev (deref_links a) = rev (deref_links b)"
    by (simp add: well_formed_def)
  then show ?thesis by simp
qed

lemma derefs_equal_canonical:
  assumes "well_formed a" and "well_formed b"
  shows "derefs_equal a b = Inr (canonical_identity a = canonical_identity b)"
proof -
  from assms have ta: "deref_well_typed a" and tb: "deref_well_typed b"
    by (auto simp: well_formed_def)
  show ?thesis
  proof (cases "canonical_identity a = canonical_identity b")
    case True
    with well_formed_links [OF assms True] derefs_equal_loop_links [OF ta tb]
    show ?thesis by (simp add: derefs_equal_def canonical_identity_def)
  next
    case False
    with derefs_equal_loop_links [OF ta tb] show ?thesis
      by (auto simp: derefs_equal_def canonical_identity_def struct_path_links [OF ta]
          struct_path_links [OF tb])
  qed
qed

lemma hash_deref_canonical:
  assumes "well_formed a" and "well_formed b"
    and "canonical_identity a = canonical_identity b"
  shows "hash_deref a = hash_deref b"
proof -
  from assms(1) obtain v where va: "nir_deref_instr_get_variable a = Some v"
    by (auto simp: well_formed_def split: option.splits)
  with assms(3) have vb: "nir_deref_instr_get_variable b = Some v"
    and sp: "struct_path a = struct_path b"
    by (simp_all add: canonical_identity_def)
  from assms have ta: "deref_well_typed a" and tb: "deref_well_typed b"
    by (auto simp: well_formed_def)
  show ?thesis
    by (simp add: hash_deref_def hash_deref_loop_canonical [OF ta va]
        hash_deref_loop_canonical [OF tb vb] sp)
qed

lemma well_formed_hash: "well_formed d \<Longrightarrow> \<exists>h. hash_deref d = Inr h"
  by (auto simp: well_formed_def hash_deref_def hash_deref_loop_canonical split: option.splits)

lemma search_find:
  assumes "\<forall>e\<in>set ht. well_formed (key e) \<and> hash_deref (key e) = Inr (entry_hash e)"
    and "well_formed d" and "hash_deref d = Inr h"
  shows "mesa_hash_table_search_pre_hashed ht h d =
     Inr (find (\<lambda>e. canonical_identity (key e) = canonical_identity d) ht)"
  using assms(1)
proof (induction ht)
  case Nil
  then show ?case by simp
next
  case (Cons e es)
  then have we: "well_formed (key e)" and he: "hash_deref (key e) = Inr (entry_hash e)"
    and IH: "mesa_hash_table_search_pre_hashed es h d =
       Inr (find (\<lambda>e. canonical_identity (key e) = canonical_identity d) es)"
    by auto
  show ?case
  proof (cases "entry_hash e = h")
    case True
    with derefs_equal_canonical [OF assms(2) we] IH show ?thesis
      by (auto simp: eq_commute)
  next
    case False
    with he assms(3) hash_deref_canonical [OF we assms(2)]
    have "canonical_identity (key e) \<noteq> canonical_identity d" by auto
    with False IH show ?thesis by simp
  qed
qed

lemma find_append:
  "find P (xs @ ys) = (case find P xs of None \<Rightarrow> find P ys | Some x \<Rightarrow> Some x)"
  by (induction xs) auto

lemma find_Some_set: "find P xs = Some x \<Longrightarrow> x \<in> set xs \<and> P x"
  by (induction xs) (auto split: if_splits)

lemma find_None_set: "find P xs = None \<Longrightarrow> \<forall>x\<in>set xs. \<not> P x"
  by (induction xs) (auto split: if_splits)

lemma get_reg_for_deref_step:
  assumes ok: "table_ok s" and wf: "well_formed d"
  shows "\<exists>r s'. get_reg_for_deref d s = Inr (r, s') \<and> table_ok s' \<and>
     table_reg s' (canonical_identity d) = Some r \<and>
     (\<forall>c r0. table_reg s c = Some r0 \<longrightarrow> table_reg s' c = Some r0)"
proof -
  from well_formed_hash [OF wf] obtain h where h: "hash_deref d = Inr h" by blast
  from wf obtain v where v: "nir_deref_instr_get_variable d = Some v"
    and c: "constant_initializer v = None"
    and vec: "glsl_type_is_vector_or_scalar (type d)"
    by (auto simp: well_formed_def split: option.splits)
  from ok have keys: "\<forall>e\<in>set (regs_table s).
      well_formed (key e) \<and> hash_deref (key e) = Inr (entry_hash e)"
    by (simp add: table_ok_def)
  note sf = search_find [OF keys wf h]
  let ?P = "\<lambda>e. canonical_identity (key e) = canonical_identity d"
  show ?thesis
  proof (cases "find ?P (regs_table s)")
    case (Some e)
    with sf h v c have "get_reg_for_deref d s = Inr (data e, s)"
      by (simp add: get_reg_for_deref_def)
    moreover from Some have "table_reg s (canonical_identity d) = Some (data e)"
      by (simp add: table_reg_def)
    ultimately show ?thesis using ok by auto
  next
    case None
    let ?a = "array_size_loop 1 (Some d)"
    let ?r = "\<lparr>reg_index = reg_alloc (impl (builder s)),
               num_components = glsl_get_vector_elements (type d),
               num_array_elems = (if 1 < ?a then ?a else 0),
               bit_size = glsl_get_bit_size (type d)\<rparr>"
    let ?e = "\<lparr>entry_hash = h, key = d, data = ?r\<rparr>"
    from None sf h v c vec obtain s' where
      g: "get_reg_for_deref d s = Inr (?r, s')"
      and tab: "regs_table s' = regs_table s @ [?e]"
      and al: "reg_alloc (impl (builder s')) = reg_alloc (impl (builder s)) + 1"
      by (simp add: get_reg_for_deref_def Let_def nir_local_reg_create_def reg_write_def
          mesa_hash_table_insert_pre_hashed_def)
    from find_None_set [OF None]
    have fresh: "\<forall>e\<in>set (regs_table s). canonical_identity (key e) \<noteq> canonical_identity d"
      by simp
    from ok have old: "\<forall>e\<in>set (regs_table s). reg_index (data e) < reg_alloc (impl (builder s))"
      by (simp add: table_ok_def)
    have ok': "table_ok s'"
      using ok wf h fresh old
      by (auto simp: table_ok_def tab al)
    have here: "table_reg s' (canonical_identity d) = Some ?r"
      using None by (simp add: table_reg_def tab find_append)
    have mono: "\<forall>c r0. table_reg s c = Some r0 \<longrightarrow> table_reg s' c = Some r0"
      by (auto simp: table_reg_def tab find_append split: option.splits)
    from g ok' here mono show ?thesis by blast
  qed
qed

lemma get_regs_for_derefs_run:
  assumes "table_ok s" and "\<forall>d\<in>set ds. well_formed d"
  shows "\<exists>rs s'. get_regs_for_derefs ds s = Inr (rs, s') \<and> table_ok s' \<and>
     length rs = length ds \<and>
     (\<forall>i<length ds. table_reg s' (canonical_identity (ds ! i)) = Some (rs ! i)) \<and>
     (\<forall>c r0. table_reg s c = Some r0 \<longrightarrow> table_reg s' c = Some r0)"
  using assms
proof (induction ds arbitrary: s)
  case Nil
  then show ?case by simp
next
  case (Cons d ds)
  from Cons.prems have wf: "well_formed d" and rest: "\<forall>d\<in>set ds. well_formed d"
    by auto
  from get_reg_for_deref_step [OF Cons.prems(1) wf]
  obtain r s1 where g: "get_reg_for_deref d s = Inr (r, s1)" and ok1: "table_ok s1"
    and here: "table_reg s1 (canonical_identity d) = Some r"
    and mono1: "\<forall>c r0. table_reg s c = Some r0 \<longrightarrow> table_reg s1 c = Some r0"
    by blast
  from Cons.IH [OF ok1 rest]
  obtain rs s' where run: "get_regs_for_derefs ds s1 = Inr (rs, s')" and ok': "table_ok s'"
    and len: "length rs = length ds"
    and regs: "\<forall>i<length ds. table_reg s' (canonical_identity (ds ! i)) = Some (rs ! i)"
    and mono2: "\<forall>c r0. table_reg s1 c = Some r0 \<longrightarrow> table_reg s' c = Some r0"
    by blast
  have "get_regs_for_derefs (d # ds) s = Inr (r # rs, s')"
    using g run by simp
  moreover have "\<forall>i<length (d # ds).
      table_reg s' (canonical_identity ((d # ds) ! i)) = Some ((r # rs) ! i)"
  proof (intro allI impI)
    fix i assume "i < length (d # ds)"
    show "table_reg s' (canonical_identity ((d # ds) ! i)) = Some ((r # rs) ! i)"
    proof (cases i)
      case 0
      from mono2 here have "table_reg s' (canonical_identity d) = Some r"
        by blast
      with 0 show ?thesis by simp
    next
      case (Suc k)
      with \<open>i < length (d # ds)\<close> regs show ?thesis by simp
    qed
  qed
  moreover have "\<forall>c r0. table_reg s c = Some r0 \<longrightarrow> table_reg s' c = Some r0"
    using mono1 mono2 by blast
  ultimately show ?case using ok' len by auto
qed

lemma table_reg_inj:
  assumes "table_ok s" and "table_reg s c1 = Some r" and "table_reg s c2 = Some r"
  shows "c1 = c2"
proof -
  from assms(2) obtain e1 where e1: "e1 \<in> set (regs_table s)"
    and k1: "canonical_identity (key e1) = c1" and d1: "data e1 = r"
    by (auto simp: table_reg_def dest: find_Some_set)
  from assms(3) obtain e2 where e2: "e2 \<in> set (regs_table s)"
    and k2: "canonical_identity (key e2) = c2" and d2: "data e2 = r"
    by (auto simp: table_reg_def dest: find_Some_set)
  from assms(1) have "inj_on (\<lambda>e. reg_index (data e)) (set (regs_table s))"
    by (simp add: table_ok_def distinct_map)
  then have "reg_index (data e1) = reg_index (data e2) \<longrightarrow> e1 = e2"
    using e1 e2 unfolding inj_on_def by blast
  with d1 d2 have "e1 = e2"
    by simp
  with k1 k2 show ?thesis by simp
qed

text \<open>
  C10.  \<^verbatim>\<open>get_reg_for_deref\<close> asserts that the root variable of the chain has no constant
  initializer, before it searches the table or allocates: on a chain that hashes and whose
  root has an initializer the call fails with that assertion whatever the state, and a
  call that returns a register had a root without initializer.
\<close>

theorem get_reg_for_deref_asserts_no_initializer:
  assumes "hash_deref deref = Inr h"
    and "nir_deref_instr_get_variable deref = Some v"
  shows "(constant_initializer v \<noteq> None \<longrightarrow>
           get_reg_for_deref deref state =
             Inl (Assertion_failed
               ''nir_deref_instr_get_variable(deref)->constant_initializer == NULL'')) \<and>
         (\<forall>r state'. get_reg_for_deref deref state = Inr (r, state') \<longrightarrow>
            constant_initializer v = None)"
  using assms by (auto simp: get_reg_for_deref_def)

theorem get_reg_for_deref_asserts_no_initializer_witness:
  "constant_initializer initialized_var \<noteq> None \<and>
   get_reg_for_deref initialized_deref example_state =
     Inl (Assertion_failed
       ''nir_deref_instr_get_variable(deref)->constant_initializer == NULL'') \<and>
   (\<exists>r state'.
      get_reg_for_deref (single_access (Src_ssa (Ssa_value 5))) example_state =
        Inr (r, state') \<and>
      constant_initializer single_var = None)"
proof -
  have h: "hash_deref initialized_deref =
      Inr (mesa_fnv32_1a_accumulate_block mesa_fnv32_1a_offset_bias
             (bytes_of_pointer 8192))"
    by (simp add: hash_deref_def initialized_deref_def initialized_var_def)
  have v: "nir_deref_instr_get_variable initialized_deref = Some initialized_var"
    by (simp add: initialized_deref_def)
  have c: "constant_initializer initialized_var \<noteq> None"
    by (simp add: initialized_var_def)
  let ?d = "single_access (Src_ssa (Ssa_value 5))"
  have h2: "hash_deref ?d =
      Inr (mesa_fnv32_1a_accumulate_block mesa_fnv32_1a_offset_bias
             (bytes_of_pointer 12288))"
    by (simp add: hash_deref_def single_access_def single_var_def)
  have v2: "nir_deref_instr_get_variable ?d = Some single_var"
    by (simp add: single_access_def)
  have "\<exists>r state'. get_reg_for_deref ?d example_state = Inr (r, state')"
    by (simp add: get_reg_for_deref_def hash_deref_def single_access_def single_var_def
        example_state_def nir_local_reg_create_def Let_def)
  then obtain r state' where g: "get_reg_for_deref ?d example_state = Inr (r, state')"
    by blast
  from get_reg_for_deref_asserts_no_initializer [OF h v, of example_state] c
    get_reg_for_deref_asserts_no_initializer [OF h2 v2, of example_state] g
  show ?thesis by auto
qed

text \<open>
  C1.  Within the lowering of one function, which starts from an empty table,
  \<^verbatim>\<open>get_reg_for_deref\<close> returns a register for every well-formed chain, and for any two
  of the chains it returns the same register exactly when the chains have the same root
  variable and the same sequence of struct-field indices, whatever their array-index
  links are.
\<close>

theorem registers_follow_canonical_identity:
  assumes "regs_table state = []"
    and "\<forall>d\<in>set derefs. well_formed d"
  shows "\<exists>regs state'.
           get_regs_for_derefs derefs state = Inr (regs, state') \<and>
           length regs = length derefs \<and>
           (\<forall>i<length derefs. \<forall>j<length derefs.
              (regs ! i = regs ! j) =
              (nir_deref_instr_get_variable (derefs ! i) =
                 nir_deref_instr_get_variable (derefs ! j) \<and>
               struct_path (derefs ! i) = struct_path (derefs ! j)))"
proof -
  from assms(1) have ok: "table_ok state"
    by (simp add: table_ok_def)
  from get_regs_for_derefs_run [OF ok assms(2)]
  obtain regs state' where run: "get_regs_for_derefs derefs state = Inr (regs, state')"
    and ok': "table_ok state'" and len: "length regs = length derefs"
    and regs: "\<forall>i<length derefs.
      table_reg state' (canonical_identity (derefs ! i)) = Some (regs ! i)"
    by blast
  have "(regs ! i = regs ! j) =
      (nir_deref_instr_get_variable (derefs ! i) = nir_deref_instr_get_variable (derefs ! j) \<and>
       struct_path (derefs ! i) = struct_path (derefs ! j))"
    if i: "i < length derefs" and j: "j < length derefs" for i j
  proof -
    from regs i have ri: "table_reg state' (canonical_identity (derefs ! i)) = Some (regs ! i)"
      by simp
    from regs j have rj: "table_reg state' (canonical_identity (derefs ! j)) = Some (regs ! j)"
      by simp
    have "(regs ! i = regs ! j) =
        (canonical_identity (derefs ! i) = canonical_identity (derefs ! j))"
    proof
      assume "regs ! i = regs ! j"
      with ri rj table_reg_inj [OF ok'] show
        "canonical_identity (derefs ! i) = canonical_identity (derefs ! j)"
        by metis
    next
      assume "canonical_identity (derefs ! i) = canonical_identity (derefs ! j)"
      with ri rj show "regs ! i = regs ! j" by simp
    qed
    then show ?thesis by (simp add: canonical_identity_def)
  qed
  with run len show ?thesis by blast
qed

theorem registers_follow_canonical_identity_witness:
  "\<exists>regs state'.
     get_regs_for_derefs
       [pair_second (Src_ssa (Ssa_value 3)), pair_first,
        pair_second (Src_ssa (Ssa_load_const 1)), grid_access (Src_ssa (Ssa_value 0))]
       example_state = Inr (regs, state') \<and>
     regs ! 0 = regs ! 2 \<and> regs ! 0 \<noteq> regs ! 1 \<and> regs ! 0 \<noteq> regs ! 3"
proof -
  let ?ds = "[pair_second (Src_ssa (Ssa_value 3)), pair_first,
        pair_second (Src_ssa (Ssa_load_const 1)), grid_access (Src_ssa (Ssa_value 0))]"
  have e: "regs_table example_state = []"
    by (simp add: example_state_def)
  have w: "\<forall>d\<in>set ?ds. well_formed d"
    by (simp add: well_formed_def pair_second_def pair_first_def pair_var_def
        grid_access_def grid_var_def)
  from registers_follow_canonical_identity [OF e w]
  obtain regs state' where run: "get_regs_for_derefs ?ds example_state = Inr (regs, state')"
    and eq: "\<forall>i<length ?ds. \<forall>j<length ?ds.
      (regs ! i = regs ! j) =
      (nir_deref_instr_get_variable (?ds ! i) = nir_deref_instr_get_variable (?ds ! j) \<and>
       struct_path (?ds ! i) = struct_path (?ds ! j))"
    by blast
  from eq [rule_format, of 0 2] have a: "regs ! 0 = regs ! 2"
    by (simp add: pair_second_def)
  from eq [rule_format, of 0 1] have b: "regs ! 0 \<noteq> regs ! 1"
    by (simp add: pair_second_def pair_first_def)
  from eq [rule_format, of 0 3] have c: "regs ! 0 \<noteq> regs ! 3"
    by (simp add: pair_second_def grid_access_def pair_var_def grid_var_def)
  from run a b c show ?thesis by blast
qed

text \<open>
  C4.  A register that \<^verbatim>\<open>get_reg_for_deref\<close> allocates (the table has no entry for the
  chain) records as its array size the product of the array lengths at all array-index
  links of the chain, struct-field links in between or not, except that a product of 1
  is recorded as 0.  The running product starts at 1 and is a C \<^verbatim>\<open>unsigned\<close>; it is the
  product of the lengths as numbers whenever that is below \<open>2 ^ 32\<close>.  The register is new:
  it takes the function's next index and joins the function's registers.
\<close>

theorem get_reg_for_deref_array_size:
  assumes "hash_deref deref = Inr h"
    and "mesa_hash_table_search_pre_hashed (regs_table state) h deref = Inr None"
    and "get_reg_for_deref deref state = Inr (r, state1)"
  shows "array_size_loop 1 (Some deref) = prod_list (array_lengths deref) \<and>
         num_array_elems r =
           (if prod_list (array_lengths deref) = 1 then 0
            else prod_list (array_lengths deref)) \<and>
         (prod_list (map unat (array_lengths deref)) < 2 ^ 32 \<longrightarrow>
            unat (prod_list (array_lengths deref)) =
            prod_list (map unat (array_lengths deref))) \<and>
         reg_index r = reg_alloc (impl (builder state)) \<and>
         r \<in> set (registers (impl (builder state1)))"
  using assms
  by (auto simp: get_reg_for_deref_def Let_def nir_local_reg_create_def reg_write_def
      array_size_loop_prod word_not_gt_one prod_list_unat split: option.splits if_splits)

theorem get_reg_for_deref_array_size_witness:
  "\<exists>r state1.
     get_reg_for_deref (grid_access (Src_ssa (Ssa_value 0))) example_state = Inr (r, state1) \<and>
     array_lengths (grid_access (Src_ssa (Ssa_value 0))) = [4, 3] \<and>
     prod_list (map unat (array_lengths (grid_access (Src_ssa (Ssa_value 0))))) < 2 ^ 32 \<and>
     unat (prod_list (array_lengths (grid_access (Src_ssa (Ssa_value 0))))) = 12 \<and>
     num_array_elems r = 12 \<and> reg_index r = 0"
proof -
  let ?d = "grid_access (Src_ssa (Ssa_value 0))"
  let ?h = "mesa_fnv32_1a_accumulate_block mesa_fnv32_1a_offset_bias (bytes_of_pointer 4096)"
  have h: "hash_deref ?d = Inr ?h"
    by (simp add: hash_deref_def grid_access_def grid_var_def)
  have s: "mesa_hash_table_search_pre_hashed (regs_table example_state) ?h ?d = Inr None"
    by (simp add: example_state_def)
  have "\<exists>r state1. get_reg_for_deref ?d example_state = Inr (r, state1)"
    by (simp add: get_reg_for_deref_def hash_deref_def grid_access_def grid_var_def
        example_state_def nir_local_reg_create_def Let_def)
  then obtain r state1 where g: "get_reg_for_deref ?d example_state = Inr (r, state1)"
    by blast
  have l: "array_lengths ?d = [4, 3]"
    by (simp add: grid_access_def)
  from get_reg_for_deref_array_size [OF h s g] g l show ?thesis
    by (simp add: example_state_def nir_builder_init_def)
qed

section \<open>Properties of the linearization\<close>

text \<open>
  C3.  When the register that \<^verbatim>\<open>get_reg_for_deref\<close> resolves for a chain has array size
  0, \<^verbatim>\<open>get_deref_reg_src\<close> returns that register with base offset 0 and no indirect,
  whatever the links and indices of the chain are.
\<close>

theorem get_deref_reg_src_scalar:
  assumes "get_reg_for_deref deref state = Inr (r, state1)"
    and "num_array_elems r = 0"
  shows "get_deref_reg_src deref state = Inr (Src_reg r 0 None, state1)"
  using assms by (simp add: get_deref_reg_src_def)

theorem get_deref_reg_src_scalar_witness:
  "\<exists>r state1.
     nir_src_as_const_value (Src_ssa (Ssa_value 5)) = None \<and>
     get_reg_for_deref (single_access (Src_ssa (Ssa_value 5))) example_state =
       Inr (r, state1) \<and>
     num_array_elems r = 0 \<and>
     get_deref_reg_src (single_access (Src_ssa (Ssa_value 5))) example_state =
       Inr (Src_reg r 0 None, state1)"
proof -
  let ?d = "single_access (Src_ssa (Ssa_value 5))"
  have "\<exists>r state1. get_reg_for_deref ?d example_state = Inr (r, state1) \<and>
      num_array_elems r = 0"
    by (simp add: get_reg_for_deref_def hash_deref_def single_access_def single_var_def
        example_state_def nir_local_reg_create_def Let_def)
  then obtain r state1 where g: "get_reg_for_deref ?d example_state = Inr (r, state1)"
    and z: "num_array_elems r = 0"
    by blast
  from get_deref_reg_src_scalar [OF g z] g z show ?thesis by simp
qed

lemma array_link_total:
  assumes "offset_ok off ind"
  shows "\<exists>off1 ind1 b1. array_link b n off ind index = Inr (off1, ind1, b1) \<and> offset_ok off1 ind1
     \<and> impl b1 = impl b"
  using assms
  by (cases index)
    (auto simp: offset_ok_def array_link_def nir_imm_int_def nir_imul_def nir_iadd_def
      nir_builder_instr_insert_def
      split: option.splits nir_src.splits)

lemma loop_total:
  assumes "offset_ok off ind"
  shows "\<exists>off1 ind1 b1. get_deref_reg_src_loop b n off ind d = Inr (off1, ind1, b1) \<and>
     offset_ok off1 ind1 \<and> impl b1 = impl b"
  using assms
proof (induction b n off ind d rule: get_deref_reg_src_loop.induct)
  case (3 b n off ind m t p i)
  from array_link_total [OF "3.prems", of b n i]
  obtain off1 ind1 b1 where a: "array_link b n off ind i = Inr (off1, ind1, b1)"
    and ok: "offset_ok off1 ind1" and im: "impl b1 = impl b" by blast
  from "3.IH" [OF a refl refl ok] im a show ?case by auto
qed auto

lemma offset_ok_zero: "offset_ok off ind \<Longrightarrow> ind \<noteq> None \<Longrightarrow> off = 0"
  by (auto simp: offset_ok_def split: option.splits nir_src.splits)

text \<open>
  C6.  The assertion \<^verbatim>\<open>src.reg.base_offset == 0\<close>, which the walk checks at every
  array-index link it meets once an indirect exists, never fails: \<^verbatim>\<open>get_deref_reg_src\<close>
  never returns that failure, and whenever the register resolves the walk runs to its end
  and returns an operand whose base offset is 0 if it has an indirect.
\<close>

theorem base_offset_assertion_never_fires:
  "get_deref_reg_src deref state \<noteq> Inl (Assertion_failed ''src.reg.base_offset == 0'') \<and>
   (\<forall>r state1. get_reg_for_deref deref state = Inr (r, state1) \<longrightarrow>
      (\<exists>off ind b. get_deref_reg_src deref state = Inr (Src_reg r off ind, state1\<lparr>builder := b\<rparr>) \<and>
         (ind \<noteq> None \<longrightarrow> off = 0)))"
proof -
  have ok: "offset_ok 0 None" by (simp add: offset_ok_def)
  have 2: "\<exists>off ind b. get_deref_reg_src deref state = Inr (Src_reg r off ind, state1\<lparr>builder := b\<rparr>) \<and>
         (ind \<noteq> None \<longrightarrow> off = 0)" if g: "get_reg_for_deref deref state = Inr (r, state1)" for r state1
  proof (cases "num_array_elems r = 0")
    case True
    then have "get_deref_reg_src deref state = Inr (Src_reg r 0 None, state1\<lparr>builder := builder state1\<rparr>)"
      using g by (simp add: get_deref_reg_src_def)
    then show ?thesis by blast
  next
    case False
    from loop_total [OF ok, of "builder state1" 1 "Some deref"]
    obtain off ind b where l: "get_deref_reg_src_loop (builder state1) 1 0 None (Some deref) = Inr (off, ind, b)"
      and o: "offset_ok off ind" by blast
    from False g l have "get_deref_reg_src deref state = Inr (Src_reg r off ind, state1\<lparr>builder := b\<rparr>)"
      by (simp add: get_deref_reg_src_def)
    with offset_ok_zero [OF o] show ?thesis by blast
  qed
  have 1: "get_deref_reg_src deref state \<noteq> Inl (Assertion_failed ''src.reg.base_offset == 0'')"
  proof (cases "get_reg_for_deref deref state")
    case (Inl e)
    then have "get_deref_reg_src deref state = Inl e" by (simp add: get_deref_reg_src_def)
    moreover from Inl have "e \<noteq> Assertion_failed ''src.reg.base_offset == 0''"
      by (auto simp: get_reg_for_deref_def Let_def hash_deref_def
          hash_deref_loop_no_assertion search_no_assertion
          split: sum.splits option.splits if_splits prod.splits)
    ultimately show ?thesis by simp
  next
    case (Inr a)
    then show ?thesis using 2 [of "fst a" "snd a"] by auto
  qed
  from 1 2 show ?thesis by blast
qed

theorem base_offset_assertion_never_fires_witness:
  "\<exists>r state1 i b.
     get_reg_for_deref (grid_access (Src_ssa (Ssa_value 0))) example_state =
       Inr (r, state1) \<and>
     get_deref_reg_src (grid_access (Src_ssa (Ssa_value 0))) example_state =
       Inr (Src_reg r 0 (Some i), state1\<lparr>builder := b\<rparr>)"
proof -
  let ?d = "grid_access (Src_ssa (Ssa_value 0))"
  have "\<exists>r state1. get_reg_for_deref ?d example_state = Inr (r, state1) \<and>
      num_array_elems r \<noteq> 0"
    by (simp add: get_reg_for_deref_def hash_deref_def grid_access_def grid_var_def
        example_state_def nir_local_reg_create_def Let_def)
  then obtain r state1 where g: "get_reg_for_deref ?d example_state = Inr (r, state1)"
    and n: "num_array_elems r \<noteq> 0"
    by blast
  from base_offset_assertion_never_fires [of ?d example_state] g
  obtain off ind b where s: "get_deref_reg_src ?d example_state =
      Inr (Src_reg r off ind, state1\<lparr>builder := b\<rparr>)"
    and z: "ind \<noteq> None \<longrightarrow> off = 0"
    by blast
  have "\<exists>x c y. get_deref_reg_src_loop (builder state1) 1 0 None (Some ?d) =
      Inr (x, Some c, y)"
    by (simp add: grid_access_def array_link_def nir_imm_int_def nir_imul_def nir_iadd_def
        Let_def)
  with g n s have "ind \<noteq> None"
    by (auto simp: get_deref_reg_src_def)
  with z s g show ?thesis by auto
qed

lemma eval_ssa_for_src:
  "eval_ssa_def vals regs (fst (nir_ssa_for_src b i)) = eval_src vals regs i"
  by (cases i) auto

text \<open>
  C2.  For a variable of type array of 3 arrays of 4, accessed at \<^verbatim>\<open>[i][2]\<close> with \<open>i\<close> not
  a constant, and a register that is an array: the walk folds the constant 2 into the
  base offset at stride 1, then at the dynamic index seeds the indirect with that base
  offset, resets the base offset to 0 and adds \<open>i\<close> times 4.  The operand is base offset 0
  with the indirect \<open>2 + i * 4\<close>, and the slot it addresses is \<open>i * 4 + 2\<close>.
\<close>

theorem grid_linearization:
  assumes "deref =
      Deref_array m1 t
        (Deref_array m2 (Glsl_array t 4) (Deref_var m3 (Glsl_array (Glsl_array t 4) 3) v) i)
        (Src_ssa (Ssa_load_const 2))"
    and "nir_src_as_const_value i = None"
    and "get_reg_for_deref deref state = Inr (r, state1)"
    and "num_array_elems r \<noteq> 0"
  shows "\<exists>b x. get_deref_reg_src deref state =
           Inr (Src_reg r 0 (Some (Src_ssa (Ssa_iadd (Ssa_load_const 2)
                  (Ssa_imul x (Ssa_load_const 4))))),
                state1\<lparr>builder := b\<rparr>) \<and>
           x = fst (nir_ssa_for_src (builder state1) i) \<and>
           (\<forall>vals regs.
              reg_src_address vals regs
                (Src_reg r 0 (Some (Src_ssa (Ssa_iadd (Ssa_load_const 2)
                  (Ssa_imul x (Ssa_load_const 4)))))) =
              eval_src vals regs i * 4 + 2)"
proof -
  have "\<exists>b. get_deref_reg_src_loop (builder state1) 1 0 None (Some deref) =
      Inr (0, Some (Src_ssa (Ssa_iadd (Ssa_load_const 2)
             (Ssa_imul (fst (nir_ssa_for_src (builder state1) i)) (Ssa_load_const 4)))), b)"
    using assms(1,2)
    by (cases i)
      (auto simp: array_link_def nir_imm_int_def nir_imul_def nir_iadd_def Let_def
        split: prod.splits)
  then obtain b where "get_deref_reg_src_loop (builder state1) 1 0 None (Some deref) =
      Inr (0, Some (Src_ssa (Ssa_iadd (Ssa_load_const 2)
             (Ssa_imul (fst (nir_ssa_for_src (builder state1) i)) (Ssa_load_const 4)))), b)"
    by blast
  with assms(3,4) have "get_deref_reg_src deref state =
      Inr (Src_reg r 0 (Some (Src_ssa (Ssa_iadd (Ssa_load_const 2)
             (Ssa_imul (fst (nir_ssa_for_src (builder state1) i)) (Ssa_load_const 4))))),
           state1\<lparr>builder := b\<rparr>)"
    by (simp add: get_deref_reg_src_def)
  then show ?thesis
    by (auto simp: reg_src_address_def eval_ssa_for_src)
qed

theorem grid_linearization_witness:
  "\<exists>r state1 b.
     nir_src_as_const_value (Src_ssa (Ssa_value 0)) = None \<and>
     get_reg_for_deref (grid_access (Src_ssa (Ssa_value 0))) example_state =
       Inr (r, state1) \<and>
     num_array_elems r = 12 \<and>
     get_deref_reg_src (grid_access (Src_ssa (Ssa_value 0))) example_state =
       Inr (Src_reg r 0 (Some (Src_ssa (Ssa_iadd (Ssa_load_const 2)
              (Ssa_imul (Ssa_value 0) (Ssa_load_const 4))))),
            state1\<lparr>builder := b\<rparr>) \<and>
     reg_src_address (\<lambda>n. 5) (\<lambda>r a. 0)
       (Src_reg r 0 (Some (Src_ssa (Ssa_iadd (Ssa_load_const 2)
              (Ssa_imul (Ssa_value 0) (Ssa_load_const 4)))))) = 22"
proof -
  let ?i = "Src_ssa (Ssa_value 0)"
  have d: "grid_access ?i =
      Deref_array nir_var_local (Glsl_vector 1 32)
        (Deref_array nir_var_local (Glsl_array (Glsl_vector 1 32) 4)
          (Deref_var nir_var_local (Glsl_array (Glsl_array (Glsl_vector 1 32) 4) 3) grid_var)
          ?i)
        (Src_ssa (Ssa_load_const 2))"
    by (simp add: grid_access_def)
  have c: "nir_src_as_const_value ?i = None"
    by simp
  have "\<exists>r state1. get_reg_for_deref (grid_access ?i) example_state = Inr (r, state1) \<and>
      num_array_elems r = 12"
    by (simp add: get_reg_for_deref_def hash_deref_def grid_access_def grid_var_def
        example_state_def nir_local_reg_create_def Let_def)
  then obtain r state1 where g: "get_reg_for_deref (grid_access ?i) example_state = Inr (r, state1)"
    and n: "num_array_elems r = 12"
    by blast
  from n have n0: "num_array_elems r \<noteq> 0"
    by simp
  from grid_linearization [OF d c g n0] g n c show ?thesis
    by (auto simp: reg_src_address_def)
qed

text \<open>
  C9.  A chain whose array lengths multiply to 1 or less, array-index links or not, gets
  a register of array size 0 when \<^verbatim>\<open>get_reg_for_deref\<close> allocates it, so the access is
  direct: base offset 0 and no indirect.  So is every later access through a chain that
  \<^verbatim>\<open>derefs_equal\<close> takes for the same, a dynamic index or not, in every state whose table
  has grown from this one: it resolves to that register.
\<close>

theorem single_element_array_is_scalar:
  assumes h: "hash_deref deref = Inr h"
    and fresh: "mesa_hash_table_search_pre_hashed (regs_table state) h deref = Inr None"
    and prod: "prod_list (array_lengths deref) \<le> 1"
    and ok: "get_deref_reg_src deref state = Inr (s, state1)"
  shows "num_array_elems (reg_reg s) = 0 \<and> s = Src_reg (reg_reg s) 0 None \<and>
         (\<forall>deref' state2 more.
            derefs_equal deref' deref = Inr True \<and>
            regs_table state2 = regs_table state1 @ more \<longrightarrow>
            get_deref_reg_src deref' state2 = Inr (s, state2))"
proof -
  from ok obtain r state0 where g: "get_reg_for_deref deref state = Inr (r, state0)"
    by (auto simp: get_deref_reg_src_def split: sum.splits)
  from prod have "\<not> 1 < prod_list (array_lengths deref)" by (simp add: not_less)
  with get_reg_for_deref_fresh(1) [OF h fresh g] have z: "num_array_elems r = 0" by simp
  with g ok have s: "s = Src_reg r 0 None" and st: "state1 = state0"
    by (auto simp: get_deref_reg_src_def)
  from get_reg_for_deref_fresh(2) [OF h fresh g] st
  have tab: "regs_table state1 = regs_table state @ [\<lparr>entry_hash = h, key = deref, data = r\<rparr>]"
    by simp
  from get_reg_for_deref_fresh(3) [OF h fresh g]
  obtain v where v: "nir_deref_instr_get_variable deref = Some v"
    and c: "constant_initializer v = None" by blast
  have later: "get_deref_reg_src deref' state2 = Inr (s, state2)"
    if eq: "derefs_equal deref' deref = Inr True"
      and more: "regs_table state2 = regs_table state1 @ more" for deref' state2 more
  proof -
    from eq have e: "derefs_equal_loop (Some deref') (Some deref) = Inr True"
      by (simp add: derefs_equal_def)
    from derefs_equal_loop_hash [OF e] h have h': "hash_deref deref' = Inr h"
      by (simp add: hash_deref_def)
    from derefs_equal_loop_variable [OF e] v
    have v': "nir_deref_instr_get_variable deref' = Some v" by simp
    have same: "mesa_hash_table_search_pre_hashed ht h deref' =
        mesa_hash_table_search_pre_hashed ht h deref" for ht
      by (induction ht)
        (auto simp: derefs_equal_def derefs_equal_loop_left [OF e]
          simp del: derefs_equal_loop.simps split: sum.splits bool.splits)
    from derefs_equal_loop_left [OF e, of "Some deref"] e
    have refl: "derefs_equal deref deref = Inr True"
      by (simp add: derefs_equal_def)
    have "mesa_hash_table_search_pre_hashed (regs_table state2) h deref' =
        Inr (Some \<lparr>entry_hash = h, key = deref, data = r\<rparr>)"
      using fresh refl by (simp add: more tab search_append same)
    with h' v' c z s show ?thesis
      by (simp add: get_deref_reg_src_def get_reg_for_deref_def)
  qed
  from z s later show ?thesis by auto
qed

theorem single_element_array_is_scalar_witness:
  "\<exists>s state1.
     get_deref_reg_src (single_access (Src_ssa (Ssa_value 5))) example_state =
       Inr (s, state1) \<and>
     array_lengths (single_access (Src_ssa (Ssa_value 5))) = [1] \<and>
     nir_src_as_const_value (Src_ssa (Ssa_value 5)) = None \<and>
     num_array_elems (reg_reg s) = 0 \<and> s = Src_reg (reg_reg s) 0 None \<and>
     derefs_equal (single_access (Src_ssa (Ssa_load_const 0)))
       (single_access (Src_ssa (Ssa_value 5))) = Inr True \<and>
     get_deref_reg_src (single_access (Src_ssa (Ssa_load_const 0))) state1 = Inr (s, state1)"
proof -
  let ?d = "single_access (Src_ssa (Ssa_value 5))"
  let ?d' = "single_access (Src_ssa (Ssa_load_const 0))"
  let ?h = "mesa_fnv32_1a_accumulate_block mesa_fnv32_1a_offset_bias (bytes_of_pointer 12288)"
  have h: "hash_deref ?d = Inr ?h"
    by (simp add: hash_deref_def single_access_def single_var_def)
  have fresh: "mesa_hash_table_search_pre_hashed (regs_table example_state) ?h ?d = Inr None"
    by (simp add: example_state_def)
  have len: "array_lengths ?d = [1]"
    by (simp add: single_access_def)
  then have prod: "prod_list (array_lengths ?d) \<le> 1"
    by simp
  have "\<exists>s state1. get_deref_reg_src ?d example_state = Inr (s, state1)"
    by (simp add: get_deref_reg_src_def get_reg_for_deref_def hash_deref_def
        single_access_def single_var_def example_state_def nir_local_reg_create_def Let_def)
  then obtain s state1 where ok: "get_deref_reg_src ?d example_state = Inr (s, state1)"
    by blast
  have eq: "derefs_equal ?d' ?d = Inr True"
    by (simp add: derefs_equal_def single_access_def)
  have tab: "regs_table state1 = regs_table state1 @ []"
    by simp
  from single_element_array_is_scalar [OF h fresh prod ok] eq tab ok len
  show ?thesis by auto
qed

section \<open>Properties of the block rewriting\<close>

lemma lower_instrs_append:
  "lower_instrs (xs @ ys) state =
     (case lower_instrs xs state of
        Inl e \<Rightarrow> Inl e
      | Inr (out, state1) \<Rightarrow>
        (case lower_instrs ys state1 of
           Inl e \<Rightarrow> Inl e
         | Inr (out_rest, state2) \<Rightarrow> Inr (out @ out_rest, state2)))"
  by (induction xs arbitrary: state) (auto split: sum.splits)

text \<open>
  C7.  A copy intrinsic is fatal: the loop body returns the \<^verbatim>\<open>unreachable\<close> error for it,
  whatever chains it copies between, and a block with a copy in it fails, with that error
  unless an instruction before the copy has failed already.  The copy is neither
  rewritten nor skipped.
\<close>

theorem copy_deref_is_fatal:
  assumes "intrinsic intrin = nir_intrinsic_copy_deref"
  shows "lower_instr (Instr_intrinsic intrin) state =
           Inl (Unreachable ''There should be no copies whatsoever at this point'') \<and>
         lower_locals_to_regs_block
           (block\<lparr>instr_list := pre @ Instr_intrinsic intrin # post\<rparr>) state =
           (case lower_instrs pre state of
              Inl e \<Rightarrow> Inl e
            | Inr (out, state1) \<Rightarrow>
                Inl (Unreachable ''There should be no copies whatsoever at this point''))"
  using assms
  by (auto simp: lower_instr_def lower_locals_to_regs_block_def lower_instrs_append
      split: sum.splits)

theorem copy_deref_is_fatal_witness:
  "intrinsic copy_instr = nir_intrinsic_copy_deref \<and>
   mode (src0_deref copy_instr) = nir_var_local \<and>
   lower_locals_to_regs_block
     \<lparr>block_index = 0,
      instr_list = [Instr_load_const 3, Instr_intrinsic copy_instr, Instr_other 0],
      successors = (None, None), predecessors = []\<rparr> example_state =
     Inl (Unreachable ''There should be no copies whatsoever at this point'')"
proof -
  have c: "intrinsic copy_instr = nir_intrinsic_copy_deref"
    by (simp add: copy_instr_def)
  from copy_deref_is_fatal [OF c, where state = example_state
      and block = "\<lparr>block_index = 0, instr_list = [], successors = (None, None),
        predecessors = []\<rparr>"
      and pre = "[Instr_load_const 3]" and post = "[Instr_other 0]"] c
  show ?thesis by (simp add: lower_instr_def copy_instr_def single_access_def)
qed

lemma get_reg_for_deref_frame:
  assumes "get_reg_for_deref d s = Inr (r, s')"
  shows "inserted (builder s') = inserted (builder s)"
    and "valid_metadata (impl (builder s')) = valid_metadata (impl (builder s))"
    and "body (impl (builder s')) = body (impl (builder s))"
    and "progress s' = progress s"
  using assms
  by (auto simp: get_reg_for_deref_def Let_def nir_local_reg_create_def reg_write_def
      split: sum.splits option.splits if_splits)

lemma array_link_inserted:
  assumes "array_link b n off ind index = Inr (off1, ind1, b1)"
    and "\<forall>x\<in>set (inserted b). settled x"
  shows "(\<forall>x\<in>set (inserted b1). settled x) \<and> impl b1 = impl b"
  using assms
  by (cases index)
    (auto simp: array_link_def nir_imm_int_def nir_imul_def nir_iadd_def settled_def
      nir_builder_instr_insert_def Let_def
      split: option.splits nir_src.splits if_splits)

lemma loop_inserted:
  assumes "get_deref_reg_src_loop b n off ind d = Inr (off1, ind1, b1)"
    and "\<forall>x\<in>set (inserted b). settled x"
  shows "(\<forall>x\<in>set (inserted b1). settled x) \<and> impl b1 = impl b"
  using assms
proof (induction b n off ind d rule: get_deref_reg_src_loop.induct)
  case (3 b n off ind m t p i)
  from "3.prems"(1) obtain off2 ind2 b2 where a: "array_link b n off ind i = Inr (off2, ind2, b2)"
    and l: "get_deref_reg_src_loop b2 (n * glsl_get_length (type p)) off2 ind2 (Some p) =
      Inr (off1, ind1, b1)"
    by (auto split: sum.splits)
  from array_link_inserted [OF a "3.prems"(2)]
  have s2: "\<forall>x\<in>set (inserted b2). settled x" and i2: "impl b2 = impl b" by auto
  from "3.IH" [OF a refl refl l s2] i2 show ?case by simp
qed auto

lemma get_deref_reg_src_frame:
  assumes "get_deref_reg_src d s = Inr (src, s')"
    and "\<forall>x\<in>set (inserted (builder s)). settled x"
  shows "\<forall>x\<in>set (inserted (builder s')). settled x"
    and "valid_metadata (impl (builder s')) = valid_metadata (impl (builder s))"
proof -
  from assms(1) obtain r s1 where g: "get_reg_for_deref d s = Inr (r, s1)"
    by (auto simp: get_deref_reg_src_def split: sum.splits)
  note fr = get_reg_for_deref_frame [OF g]
  show "\<forall>x\<in>set (inserted (builder s')). settled x"
  proof (cases "num_array_elems r = 0")
    case True
    with assms g fr show ?thesis by (auto simp: get_deref_reg_src_def)
  next
    case False
    with assms(1) g obtain off ind b where
      l: "get_deref_reg_src_loop (builder s1) 1 0 None (Some d) = Inr (off, ind, b)"
      and s': "s' = s1\<lparr>builder := b\<rparr>"
      by (auto simp: get_deref_reg_src_def split: sum.splits)
    from assms(2) fr(1) have "\<forall>x\<in>set (inserted (builder s1)). settled x" by simp
    from loop_inserted [OF l this] s' show ?thesis by simp
  qed
  show "valid_metadata (impl (builder s')) = valid_metadata (impl (builder s))"
  proof (cases "num_array_elems r = 0")
    case True
    with assms g fr show ?thesis by (auto simp: get_deref_reg_src_def)
  next
    case False
    with assms(1) g obtain off ind b where
      l: "get_deref_reg_src_loop (builder s1) 1 0 None (Some d) = Inr (off, ind, b)"
      and s': "s' = s1\<lparr>builder := b\<rparr>"
      by (auto simp: get_deref_reg_src_def split: sum.splits)
    from assms(2) fr(1) have "\<forall>x\<in>set (inserted (builder s1)). settled x" by simp
    from loop_inserted [OF l this] s' fr(2) show ?thesis by simp
  qed
qed

lemma lower_instr_settled:
  assumes "lower_instr x s = Inr (out, s')"
  shows "(\<forall>y\<in>set out. settled y) \<and>
    valid_metadata (impl (builder s')) = valid_metadata (impl (builder s))"
proof (cases "settled x")
  case True
  with assms show ?thesis
    by (cases x)
      (auto simp: lower_instr_def settled_def split: nir_intrinsic_op.splits if_splits)
next
  case False
  then obtain intrin where x: "x = Instr_intrinsic intrin"
    by (cases x) (auto simp: settled_def)
  let ?s0 = "s\<lparr>builder := (builder s)\<lparr>inserted := []\<rparr>\<rparr>"
  have e: "\<forall>x\<in>set (inserted (builder ?s0)). settled x" by simp
  from False x assms have nc: "intrinsic intrin \<noteq> nir_intrinsic_copy_deref"
    by (auto simp: lower_instr_def)
  from False x nc have loc: "mode (src0_deref intrin) = nir_var_local"
    and ls: "intrinsic intrin = nir_intrinsic_load_deref \<or> intrinsic intrin = nir_intrinsic_store_deref"
    by (auto simp: settled_def)
  from assms x loc ls obtain src s1 where
    g: "get_deref_reg_src (src0_deref intrin) ?s0 = Inr (src, s1)"
    by (auto simp: lower_instr_def Let_def split: sum.splits)
  note fr = get_deref_reg_src_frame [OF g e]
  from assms x loc ls g fr show ?thesis
    by (auto simp: lower_instr_def Let_def nir_builder_instr_insert_def settled_def)
qed

lemma lower_instr_settled_id:
  "settled x \<Longrightarrow> lower_instr x s = Inr ([x], s)"
  by (cases x)
    (auto simp: lower_instr_def settled_def split: nir_intrinsic_op.splits)

lemma lower_instrs_settled:
  assumes "lower_instrs xs s = Inr (out, s')"
  shows "(\<forall>y\<in>set out. settled y) \<and>
    valid_metadata (impl (builder s')) = valid_metadata (impl (builder s))"
  using assms
proof (induction xs arbitrary: s out)
  case Nil
  then show ?case by simp
next
  case (Cons x xs)
  from Cons.prems obtain o1 s1 o2 where a: "lower_instr x s = Inr (o1, s1)"
    and b: "lower_instrs xs s1 = Inr (o2, s')" and out: "out = o1 @ o2"
    by (auto split: sum.splits)
  from lower_instr_settled [OF a] Cons.IH [OF b] out show ?case by auto
qed

lemma lower_instrs_settled_id:
  "\<forall>y\<in>set xs. settled y \<Longrightarrow> lower_instrs xs s = Inr (xs, s)"
  by (induction xs) (auto simp: lower_instr_settled_id)

lemma foreach_block_settled:
  assumes "foreach_block bs s = Inr (bs', s')"
  shows "(\<forall>b\<in>set bs'. \<forall>y\<in>set (instr_list b). settled y) \<and>
    valid_metadata (impl (builder s')) = valid_metadata (impl (builder s))"
  using assms
proof (induction bs arbitrary: s bs')
  case Nil
  then show ?case by simp
next
  case (Cons b bs)
  from Cons.prems obtain b1 s1 bs1 where a: "lower_locals_to_regs_block b s = Inr (b1, s1)"
    and r: "foreach_block bs s1 = Inr (bs1, s')" and out: "bs' = b1 # bs1"
    by (auto split: sum.splits)
  from a obtain instrs where i: "lower_instrs (instr_list b) s = Inr (instrs, s1)"
    and b1: "b1 = b\<lparr>instr_list := instrs\<rparr>"
    by (auto simp: lower_locals_to_regs_block_def split: sum.splits)
  from lower_instrs_settled [OF i] Cons.IH [OF r] out b1 show ?case by auto
qed

lemma foreach_block_settled_id:
  "\<forall>b\<in>set bs. \<forall>y\<in>set (instr_list b). settled y \<Longrightarrow> foreach_block bs s = Inr (bs, s)"
  by (induction bs)
    (auto simp: lower_locals_to_regs_block_def lower_instrs_settled_id)

lemma example_lowering: "nir_lower_locals_to_regs_impl example_impl = Inr (True, example_lowered)"
  by (simp add: nir_lower_locals_to_regs_impl_def example_impl_def example_lowered_def
      example_reg_def example_store_def example_load_def vec4_array_access_def
      vec4_array_var_def nir_metadata_require_def nir_metadata_preserve_def
      nir_builder_init_def lower_locals_to_regs_block_def lower_instr_def
      get_deref_reg_src_def get_reg_for_deref_def hash_deref_def derefs_equal_def
      nir_local_reg_create_def reg_write_def mesa_hash_table_insert_pre_hashed_def
      array_link_def nir_builder_instr_insert_def Let_def)

text \<open>
  C5.  The pass applied to a function it has lowered returns no progress and the function
  unchanged: after one application no block holds a load or store that addresses local
  storage, so the second application finds nothing to rewrite.
\<close>

theorem lowering_is_idempotent:
  assumes "nir_lower_locals_to_regs_impl f = Inr (p, f')"
  shows "nir_lower_locals_to_regs_impl f' = Inr (False, f') \<and>
         (\<forall>block\<in>set (body f'). \<forall>instr\<in>set (instr_list block). \<not> local_access instr)"
proof -
  let ?f1 = "nir_metadata_require f {nir_metadata_dominance}"
  let ?s = "\<lparr>builder = nir_builder_init ?f1, regs_table = [], progress = False\<rparr>"
  let ?S = "{nir_metadata_block_index, nir_metadata_dominance}"
  from assms obtain blocks s1 where fb: "foreach_block (body ?f1) ?s = Inr (blocks, s1)"
    and f': "f' = nir_metadata_preserve ((impl (builder s1))\<lparr>body := blocks\<rparr>) ?S"
    by (auto simp: nir_lower_locals_to_regs_impl_def Let_def split: sum.splits)
  from foreach_block_settled [OF fb]
  have st: "\<forall>b\<in>set blocks. \<forall>y\<in>set (instr_list b). settled y"
    and vm: "valid_metadata (impl (builder s1)) = valid_metadata f \<union> {nir_metadata_dominance}"
    by (auto simp: nir_builder_init_def nir_metadata_require_def)
  have body: "body f' = blocks"
    by (simp add: f' nir_metadata_preserve_def)
  let ?f2 = "nir_metadata_require f' {nir_metadata_dominance}"
  let ?s2 = "\<lparr>builder = nir_builder_init ?f2, regs_table = [], progress = False\<rparr>"
  have b2: "body ?f2 = blocks"
    by (simp add: body nir_metadata_require_def)
  have fb2: "foreach_block (body ?f2) ?s2 = Inr (blocks, ?s2)"
    unfolding b2 by (rule foreach_block_settled_id [OF st])
  have "nir_metadata_preserve ((impl (builder ?s2))\<lparr>body := blocks\<rparr>) ?S = f'"
    using vm by (auto simp: f' nir_metadata_preserve_def nir_metadata_require_def
        nir_builder_init_def)
  with fb2 have "nir_lower_locals_to_regs_impl f' = Inr (False, f')"
    by (simp add: nir_lower_locals_to_regs_impl_def Let_def)
  with st body show ?thesis by (auto simp: settled_def)
qed

theorem lowering_is_idempotent_witness:
  "nir_lower_locals_to_regs_impl example_impl = Inr (True, example_lowered) \<and>
   nir_lower_locals_to_regs_impl example_lowered = Inr (False, example_lowered) \<and>
   local_access (Instr_intrinsic example_store) \<and>
   filter local_access (concat (map instr_list (body example_lowered))) = []"
proof -
  have "local_access (Instr_intrinsic example_store)"
    by (simp add: example_store_def vec4_array_access_def)
  with lowering_is_idempotent [OF example_lowering] example_lowering
  show ?thesis by (simp add: filter_empty_conv)
qed

section \<open>Properties of the pass\<close>

lemma foreach_block_shape:
  assumes "foreach_block bs s = Inr (bs', s')"
  shows "length bs' = length bs \<and> map successors bs' = map successors bs \<and>
    map predecessors bs' = map predecessors bs \<and> map block_index bs' = map block_index bs"
  using assms
proof (induction bs arbitrary: s bs')
  case Nil
  then show ?case by simp
next
  case (Cons b bs)
  from Cons.prems obtain b1 s1 bs1 where a: "lower_locals_to_regs_block b s = Inr (b1, s1)"
    and r: "foreach_block bs s1 = Inr (bs1, s')" and out: "bs' = b1 # bs1"
    by (auto split: sum.splits)
  from a obtain instrs where b1: "b1 = b\<lparr>instr_list := instrs\<rparr>"
    by (auto simp: lower_locals_to_regs_block_def split: sum.splits)
  from Cons.IH [OF r] out b1 show ?case by simp
qed

text \<open>
  C8.  The pass leaves the shape of the control-flow graph as it was: the function has
  the same number of blocks, in the same order, each with the successors, predecessors
  and index it had.  Only instruction lists change.
\<close>

theorem lowering_preserves_cfg:
  assumes "nir_lower_locals_to_regs_impl f = Inr (p, f')"
  shows "length (body f') = length (body f) \<and>
         map successors (body f') = map successors (body f) \<and>
         map predecessors (body f') = map predecessors (body f) \<and>
         map block_index (body f') = map block_index (body f)"
proof -
  let ?f1 = "nir_metadata_require f {nir_metadata_dominance}"
  let ?s = "\<lparr>builder = nir_builder_init ?f1, regs_table = [], progress = False\<rparr>"
  let ?S = "{nir_metadata_block_index, nir_metadata_dominance}"
  from assms obtain blocks s1 where fb: "foreach_block (body ?f1) ?s = Inr (blocks, s1)"
    and f': "f' = nir_metadata_preserve ((impl (builder s1))\<lparr>body := blocks\<rparr>) ?S"
    by (auto simp: nir_lower_locals_to_regs_impl_def Let_def split: sum.splits)
  have "body ?f1 = body f" by (simp add: nir_metadata_require_def)
  with foreach_block_shape [OF fb] f' show ?thesis
    by (simp add: nir_metadata_preserve_def)
qed

theorem lowering_preserves_cfg_witness:
  "nir_lower_locals_to_regs_impl example_impl = Inr (True, example_lowered) \<and>
   length (body example_lowered) = 2 \<and>
   map successors (body example_lowered) = [(Some 1, None), (None, None)] \<and>
   map predecessors (body example_lowered) = [[], [0]]"
  using lowering_preserves_cfg [OF example_lowering] example_lowering
  by (simp add: example_impl_def)

end
